theory Spec2Isabelle
  imports Complex_Main
begin

section \<open>Numbers and errors\<close>

text \<open>
  The TypeScript sources compute with the \<^verbatim>\<open>number\<close> type. The embedding reads a number as a
  real: rounding, \<^verbatim>\<open>NaN\<close> and the infinities are not represented. \<^verbatim>\<open>Math.sqrt\<close> is \<open>sqrt\<close>;
  the two agree on non-negative arguments, and the pool only takes the root of a
  non-negative number once it has been constructed (a square, or a bound that passed the
  range check). HOL's \<open>x / 0 = 0\<close> stands where JavaScript has an infinity; every position
  that \<open>addLiquidity\<close> stores has positive bounds and a positive liquidity (lemma
  \<open>reachableFrom_wfPool\<close>), so that the swaps of a reachable pool divide by positive numbers
  only, and so do the evaluations on concrete pools below.

  Every \<^verbatim>\<open>throw new Error(...)\<close> of the sources is a value of \<open>error\<close>. An operation of the
  pool returns its result together with the state it leaves behind, also when it throws,
  since a TypeScript exception does not undo the assignments made before it.
\<close>

datatype error =
    InvalidRange               \<comment> \<open>"Invalid price range: Pa must be less than Pb and both must be positive"\<close>
  | NonPositiveAmount          \<comment> \<open>"Base amount must be positive", "Pre-token amount must be positive"\<close>
  | InsufficientBalance        \<comment> \<open>"Insufficient balance: need ..."\<close>
  | SettlementPhaseViolation   \<comment> \<open>"Cannot add liquidity during settlement phase", "Cannot swap during settlement phase"\<close>
  | AlreadyInSettlement        \<comment> \<open>"Already in settlement phase"\<close>
  | NoLiquidityAvailable       \<comment> \<open>"No liquidity available at current price or higher/lower"\<close>

section \<open>Token (models/Token.ts)\<close>

record Token =
  tname :: string
  symbol :: string
  decimals :: nat
  totalSupply :: real
  balances :: "string \<rightharpoonup> real"

definition newToken :: "string \<Rightarrow> string \<Rightarrow> nat \<Rightarrow> Token" where
  "newToken n sy d =
     \<lparr>tname = n, symbol = sy, decimals = d, totalSupply = 0, balances = Map.empty\<rparr>"

definition balanceOf :: "Token \<Rightarrow> string \<Rightarrow> real" where
  "balanceOf t account = (case balances t account of None \<Rightarrow> 0 | Some v \<Rightarrow> v)"

definition mint :: "Token \<Rightarrow> string \<Rightarrow> real \<Rightarrow> bool \<times> Token" where
  "mint t to amount =
     (if amount \<le> 0 then (False, t)
      else
        let currentBalance = balanceOf t to
        in (True, t\<lparr>balances := (balances t)(to \<mapsto> currentBalance + amount),
                     totalSupply := totalSupply t + amount\<rparr>))"

definition burn :: "Token \<Rightarrow> string \<Rightarrow> real \<Rightarrow> bool \<times> Token" where
  "burn t from amount =
     (let currentBalance = balanceOf t from
      in if amount \<le> 0 \<or> currentBalance < amount then (False, t)
         else (True, t\<lparr>balances := (balances t)(from \<mapsto> currentBalance - amount),
                          totalSupply := totalSupply t - amount\<rparr>))"

definition transfer :: "Token \<Rightarrow> string \<Rightarrow> string \<Rightarrow> real \<Rightarrow> bool \<times> Token" where
  "transfer t from to amount =
     (let fromBalance = balanceOf t from
      in if amount \<le> 0 \<or> fromBalance < amount then (False, t)
         else
           let t1 = t\<lparr>balances := (balances t)(from \<mapsto> fromBalance - amount)\<rparr>;
               t2 = t1\<lparr>balances := (balances t1)(to \<mapsto> balanceOf t1 to + amount)\<rparr>
           in (True, t2))"

section \<open>PriceCalculator (models/PriceCalculator.ts)\<close>

definition calculateLiquidity :: "real \<Rightarrow> real \<Rightarrow> real \<Rightarrow> error + real" where
  "calculateLiquidity x pa pb =
     (if pa \<ge> pb \<or> pa \<le> 0 \<or> pb \<le> 0 then Inl InvalidRange
      else
        let sqrtPa = sqrt pa; sqrtPb = sqrt pb
        in Inr (x / (1 / sqrtPa - 1 / sqrtPb)))"

definition calculatePreTokenAmount :: "real \<Rightarrow> real \<Rightarrow> real \<Rightarrow> error + real" where
  "calculatePreTokenAmount x pa pb =
     (if pa \<ge> pb \<or> pa \<le> 0 \<or> pb \<le> 0 then Inl InvalidRange
      else
        let sqrtPa = sqrt pa; sqrtPb = sqrt pb
        in Inr ((x * (sqrtPb - sqrtPa)) / (1 / sqrtPa - 1 / sqrtPb)))"

definition calculateBaseAmount :: "real \<Rightarrow> real \<Rightarrow> real \<Rightarrow> error + real" where
  "calculateBaseAmount y pa pb =
     (if pa \<ge> pb \<or> pa \<le> 0 \<or> pb \<le> 0 then Inl InvalidRange
      else
        let sqrtPa = sqrt pa; sqrtPb = sqrt pb
        in Inr ((y * (1 / sqrtPa - 1 / sqrtPb)) / (sqrtPb - sqrtPa)))"

text \<open>
  \<open>calculateCurrentPrice\<close> has no range check of its own: the two early returns come
  first, and the only check is the one inside \<open>calculateLiquidity\<close>.
\<close>

definition calculateCurrentPrice :: "real \<Rightarrow> real \<Rightarrow> real \<Rightarrow> real \<Rightarrow> error + real" where
  "calculateCurrentPrice baseReserve0 preTokenReserve0 pa pb =
     (if preTokenReserve0 = 0 then Inr pa
      else if baseReserve0 = 0 then Inr pb
      else
        case calculateLiquidity baseReserve0 pa pb of
          Inl e \<Rightarrow> Inl e
        | Inr liquidity0 \<Rightarrow>
            let sqrtPa = sqrt pa;
                sqrtP = preTokenReserve0 / liquidity0 + sqrtPa
            in Inr (sqrtP * sqrtP))"

section \<open>LiquidityPool (the multi-range pool)\<close>

record LPPosition =
  id_pos :: string
  owner :: string
  liquidity :: real
  lowerPriceBound :: real
  upperPriceBound :: real
  collateralAmount :: real
  initialPreTokenAmount :: real

text \<open>
  \<^verbatim>\<open>_lpPositions\<close> is a JavaScript \<^verbatim>\<open>Map\<close>: it keeps its keys in insertion order, and
  \<^verbatim>\<open>set\<close> on a key already present replaces the value in place. It is an association
  list here; \<open>map_values\<close> is \<^verbatim>\<open>Array.from(m.values())\<close>.
\<close>

fun map_set :: "('k \<times> 'v) list \<Rightarrow> 'k \<Rightarrow> 'v \<Rightarrow> ('k \<times> 'v) list" where
  "map_set [] k v = [(k, v)]"
| "map_set ((k', v') # m) k v = (if k' = k then (k, v) # m else (k', v') # map_set m k v)"

definition map_values :: "('k \<times> 'v) list \<Rightarrow> 'v list" where
  "map_values m = map snd m"

record LiquidityPool =
  baseToken :: Token
  preToken :: Token
  baseReserve :: real
  preTokenReserve :: real
  liquidity_pool :: real
  lpPositions :: "(string \<times> LPPosition) list"
  isSettlementPhase :: bool
  realToken :: "Token option"
  nextPositionId :: nat
  currentSqrtPrice :: real
  initialPriceSet :: bool

text \<open>The private field \<^verbatim>\<open>_feePercentage = 0.003\<close> is never assigned again.\<close>

definition feePercentage :: real where
  "feePercentage = 3 / 1000"

definition POOL :: string where
  "POOL = ''POOL''"

text \<open>
  The constructor. \<^verbatim>\<open>initialPrice ? Math.sqrt(initialPrice) : 0\<close> tests truthiness, so an
  initial price of \<open>0\<close> gives \<open>0\<close> as well, while \<^verbatim>\<open>_initialPriceSet\<close> only asks whether the
  argument was given. (A negative initial price would give \<^verbatim>\<open>NaN\<close>, which the reals do not
  have; no theorem below constructs a pool with one.)
\<close>

definition newLiquidityPool :: "Token \<Rightarrow> Token \<Rightarrow> real option \<Rightarrow> LiquidityPool" where
  "newLiquidityPool b p initialPrice =
     \<lparr>baseToken = b, preToken = p, baseReserve = 0, preTokenReserve = 0, liquidity_pool = 0,
      lpPositions = [], isSettlementPhase = False, realToken = None, nextPositionId = 1,
      currentSqrtPrice =
        (case initialPrice of None \<Rightarrow> 0 | Some ip \<Rightarrow> if ip = 0 then 0 else sqrt ip),
      initialPriceSet = (case initialPrice of None \<Rightarrow> False | Some ip \<Rightarrow> True)\<rparr>"

definition getCurrentPrice :: "LiquidityPool \<Rightarrow> real" where
  "getCurrentPrice s = currentSqrtPrice s * currentSqrtPrice s"

text \<open>The decimal numeral of a position counter, for the id \<^verbatim>\<open>`LP-${n}`\<close>.\<close>

fun string_of_nat :: "nat \<Rightarrow> string" where
  "string_of_nat n =
     (if n < 10 then [''0123456789'' ! n]
      else string_of_nat (n div 10) @ [''0123456789'' ! (n mod 10)])"

definition addLiquidity ::
  "LiquidityPool \<Rightarrow> string \<Rightarrow> real \<Rightarrow> real \<Rightarrow> real \<Rightarrow> (error + string) \<times> LiquidityPool" where
  "addLiquidity s owner0 baseAmount pa pb =
     (if isSettlementPhase s then (Inl SettlementPhaseViolation, s)
      else if baseAmount \<le> 0 then (Inl NonPositiveAmount, s)
      else
        let lpBaseBalance = balanceOf (baseToken s) owner0
        in
          if lpBaseBalance < baseAmount * 2 then (Inl InsufficientBalance, s)
          else
            case calculatePreTokenAmount baseAmount pa pb of
              Inl e \<Rightarrow> (Inl e, s)
            | Inr preTokenAmount \<Rightarrow>
                (case calculateLiquidity baseAmount pa pb of
                   Inl e \<Rightarrow> (Inl e, s)
                 | Inr liquidityAmount \<Rightarrow>
                     let s1 = s\<lparr>baseToken := snd (transfer (baseToken s) owner0 POOL (baseAmount * 2))\<rparr>;
                         s2 = s1\<lparr>baseReserve := baseReserve s1 + baseAmount,
                                 preTokenReserve := preTokenReserve s1 + preTokenAmount,
                                 liquidity_pool := liquidity_pool s1 + liquidityAmount\<rparr>;
                         s3 = s2\<lparr>preToken := snd (mint (preToken s2) POOL preTokenAmount)\<rparr>;
                         positionId = ''LP-'' @ string_of_nat (nextPositionId s3);
                         s4 = s3\<lparr>nextPositionId := nextPositionId s3 + 1\<rparr>;
                         position =
                           \<lparr>id_pos = positionId, owner = owner0, liquidity = liquidityAmount,
                            lowerPriceBound = pa, upperPriceBound = pb,
                            collateralAmount = baseAmount,
                            initialPreTokenAmount = preTokenAmount\<rparr>;
                         s5 = s4\<lparr>lpPositions := map_set (lpPositions s4) positionId position\<rparr>;
                         s6 =
                           (if \<not> initialPriceSet s5 \<and> length (lpPositions s5) = 1
                            then s5\<lparr>currentSqrtPrice := sqrt pa, initialPriceSet := True\<rparr>
                            else s5)
                     in (Inr positionId, s6)))"

text \<open>\<^verbatim>\<open>Array.prototype.findIndex\<close>; \<open>None\<close> stands for the result \<open>-1\<close>.\<close>

fun findIndex :: "('a \<Rightarrow> bool) \<Rightarrow> 'a list \<Rightarrow> nat option" where
  "findIndex P [] = None"
| "findIndex P (x # xs) =
     (if P x then Some 0
      else case findIndex P xs of None \<Rightarrow> None | Some i \<Rightarrow> Some (Suc i))"

text \<open>
  The routing loop of \<open>swapBaseForPreToken\<close>, over the positions sorted by ascending lower
  bound. It returns the remaining base amount, the total pre-token output and the new
  square-root price; the \<^verbatim>\<open>break\<close> is the branch that returns without a recursive call.
  \<^verbatim>\<open>Array.prototype.sort\<close> is stable, and so is \<open>sort_key\<close>; a comparator \<^verbatim>\<open>b.x - a.x\<close>
  sorts by descending \<open>x\<close>, which is \<open>sort_key\<close> on the negated key.
\<close>

function swapBaseLoop ::
  "LPPosition list \<Rightarrow> nat \<Rightarrow> real \<Rightarrow> real \<Rightarrow> real \<Rightarrow> real \<times> real \<times> real" where
  "swapBaseLoop positions currentPositionIndex remainingBaseAmount totalPreTokenOutput newSqrtPrice =
     (if remainingBaseAmount > 0 \<and> currentPositionIndex < length positions then
        let position = positions ! currentPositionIndex;
            liquidity0 = liquidity position;
            lowerSqrtPrice = sqrt (lowerPriceBound position);
            upperSqrtPrice = sqrt (upperPriceBound position);
            newSqrtPrice1 = (if newSqrtPrice < lowerSqrtPrice then lowerSqrtPrice else newSqrtPrice);
            maxNewSqrtPrice = newSqrtPrice1 + remainingBaseAmount / liquidity0;
            effectiveNewSqrtPrice = min maxNewSqrtPrice upperSqrtPrice;
            baseAmountUsed = liquidity0 * (effectiveNewSqrtPrice - newSqrtPrice1);
            preTokenReceived = liquidity0 * (1 / newSqrtPrice1 - 1 / effectiveNewSqrtPrice)
        in
          if effectiveNewSqrtPrice < upperSqrtPrice
          then (remainingBaseAmount - baseAmountUsed, totalPreTokenOutput + preTokenReceived,
                effectiveNewSqrtPrice)
          else swapBaseLoop positions (Suc currentPositionIndex)
                 (remainingBaseAmount - baseAmountUsed) (totalPreTokenOutput + preTokenReceived)
                 effectiveNewSqrtPrice
      else (remainingBaseAmount, totalPreTokenOutput, newSqrtPrice))"
  by pat_completeness auto
termination
  by (relation "measure (\<lambda>(positions, i, r, t, p). length positions - i)") auto

definition swapBaseForPreToken ::
  "LiquidityPool \<Rightarrow> string \<Rightarrow> real \<Rightarrow> (error + real) \<times> LiquidityPool" where
  "swapBaseForPreToken s trader baseAmount =
     (if isSettlementPhase s then (Inl SettlementPhaseViolation, s)
      else if baseAmount \<le> 0 then (Inl NonPositiveAmount, s)
      else
        let traderBaseBalance = balanceOf (baseToken s) trader
        in
          if traderBaseBalance < baseAmount then (Inl InsufficientBalance, s)
          else
            let fee = baseAmount * feePercentage;
                baseAmountAfterFee = baseAmount - fee;
                s1 = s\<lparr>baseToken := snd (transfer (baseToken s) trader POOL baseAmount)\<rparr>;
                currentPrice = getCurrentPrice s1;
                currentSqrtPrice0 = sqrt currentPrice;
                positions = sort_key lowerPriceBound (map_values (lpPositions s1));
                found =
                  (case findIndex (\<lambda>pos. lowerPriceBound pos \<le> currentPrice \<and>
                                         upperPriceBound pos \<ge> currentPrice) positions of
                     Some i \<Rightarrow> Some i
                   | None \<Rightarrow> findIndex (\<lambda>pos. lowerPriceBound pos > currentPrice) positions)
            in
              case found of
                None \<Rightarrow> (Inl NoLiquidityAvailable, s1)
              | Some currentPositionIndex \<Rightarrow>
                  (case swapBaseLoop positions currentPositionIndex baseAmountAfterFee 0
                          currentSqrtPrice0 of
                     (remainingBaseAmount, totalPreTokenOutput, newSqrtPrice) \<Rightarrow>
                       let s2 =
                             (if remainingBaseAmount > 0
                              then s1\<lparr>baseToken :=
                                        snd (transfer (baseToken s1) POOL trader remainingBaseAmount)\<rparr>
                              else s1);
                           s3 = s2\<lparr>baseReserve :=
                                     baseReserve s2 + (baseAmountAfterFee - remainingBaseAmount),
                                   preTokenReserve := preTokenReserve s2 - totalPreTokenOutput\<rparr>;
                           s4 = s3\<lparr>currentSqrtPrice := newSqrtPrice\<rparr>;
                           s5 = s4\<lparr>preToken :=
                                     snd (transfer (preToken s4) POOL trader totalPreTokenOutput)\<rparr>
                       in (Inr totalPreTokenOutput, s5)))"

text \<open>
  The routing loop of \<open>swapPreTokenForBase\<close>, over the positions sorted by descending
  upper bound. It returns the remaining pre-token amount, the total base output and the
  new square-root price.
\<close>

function swapPreLoop ::
  "LPPosition list \<Rightarrow> nat \<Rightarrow> real \<Rightarrow> real \<Rightarrow> real \<Rightarrow> real \<times> real \<times> real" where
  "swapPreLoop positions currentPositionIndex remainingPreTokenAmount totalBaseTokenOutput newSqrtPrice =
     (if remainingPreTokenAmount > 0 \<and> currentPositionIndex < length positions then
        let position = positions ! currentPositionIndex;
            liquidity0 = liquidity position;
            lowerSqrtPrice = sqrt (lowerPriceBound position);
            upperSqrtPrice = sqrt (upperPriceBound position);
            newSqrtPrice1 = (if newSqrtPrice > upperSqrtPrice then upperSqrtPrice else newSqrtPrice);
            divisor = remainingPreTokenAmount / liquidity0 + 1 / newSqrtPrice1;
            minNewSqrtPrice = (if divisor > 0 then 1 / divisor else 0);
            effectiveNewSqrtPrice = max minNewSqrtPrice lowerSqrtPrice;
            preTokenUsed = liquidity0 * (1 / newSqrtPrice1 - 1 / effectiveNewSqrtPrice);
            baseTokenReceived = liquidity0 * (newSqrtPrice1 - effectiveNewSqrtPrice)
        in
          if effectiveNewSqrtPrice > lowerSqrtPrice
          then (remainingPreTokenAmount - preTokenUsed, totalBaseTokenOutput + baseTokenReceived,
                effectiveNewSqrtPrice)
          else swapPreLoop positions (Suc currentPositionIndex)
                 (remainingPreTokenAmount - preTokenUsed) (totalBaseTokenOutput + baseTokenReceived)
                 effectiveNewSqrtPrice
      else (remainingPreTokenAmount, totalBaseTokenOutput, newSqrtPrice))"
  by pat_completeness auto
termination
  by (relation "measure (\<lambda>(positions, i, r, t, p). length positions - i)") auto

definition swapPreTokenForBase ::
  "LiquidityPool \<Rightarrow> string \<Rightarrow> real \<Rightarrow> (error + real) \<times> LiquidityPool" where
  "swapPreTokenForBase s trader preTokenAmount =
     (if isSettlementPhase s then (Inl SettlementPhaseViolation, s)
      else if preTokenAmount \<le> 0 then (Inl NonPositiveAmount, s)
      else
        let traderPreTokenBalance = balanceOf (preToken s) trader
        in
          if traderPreTokenBalance < preTokenAmount then (Inl InsufficientBalance, s)
          else
            let s1 = s\<lparr>preToken := snd (transfer (preToken s) trader POOL preTokenAmount)\<rparr>;
                currentPrice = getCurrentPrice s1;
                currentSqrtPrice0 = sqrt currentPrice;
                positions = sort_key (\<lambda>pos. - upperPriceBound pos) (map_values (lpPositions s1));
                found =
                  (case findIndex (\<lambda>pos. lowerPriceBound pos \<le> currentPrice \<and>
                                         upperPriceBound pos \<ge> currentPrice) positions of
                     Some i \<Rightarrow> Some i
                   | None \<Rightarrow> findIndex (\<lambda>pos. upperPriceBound pos < currentPrice) positions)
            in
              case found of
                None \<Rightarrow> (Inl NoLiquidityAvailable, s1)
              | Some currentPositionIndex \<Rightarrow>
                  (case swapPreLoop positions currentPositionIndex preTokenAmount 0
                          currentSqrtPrice0 of
                     (remainingPreTokenAmount, totalBaseTokenOutput, newSqrtPrice) \<Rightarrow>
                       let s2 =
                             (if remainingPreTokenAmount > 0
                              then s1\<lparr>preToken :=
                                        snd (transfer (preToken s1) POOL trader remainingPreTokenAmount)\<rparr>
                              else s1);
                           fee = totalBaseTokenOutput * feePercentage;
                           baseTokenOutputAfterFee = totalBaseTokenOutput - fee;
                           s3 = s2\<lparr>preTokenReserve :=
                                     preTokenReserve s2 + (preTokenAmount - remainingPreTokenAmount),
                                   baseReserve := baseReserve s2 - totalBaseTokenOutput\<rparr>;
                           s4 = s3\<lparr>currentSqrtPrice := newSqrtPrice\<rparr>;
                           s5 = s4\<lparr>baseToken :=
                                     snd (transfer (baseToken s4) POOL trader baseTokenOutputAfterFee)\<rparr>
                       in (Inr baseTokenOutputAfterFee, s5)))"

definition enterSettlementPhase :: "LiquidityPool \<Rightarrow> Token \<Rightarrow> (error + unit) \<times> LiquidityPool" where
  "enterSettlementPhase s realToken0 =
     (if isSettlementPhase s then (Inl AlreadyInSettlement, s)
      else (Inr (), s\<lparr>isSettlementPhase := True, realToken := Some realToken0\<rparr>))"

section \<open>Sequences of calls\<close>

text \<open>
  A client of the pool makes calls one after another; a call that throws leaves the
  pool as the exception found it, and the client goes on with the next call.
\<close>

datatype call =
    AddLiquidity string real real real
  | SwapBaseForPreToken string real
  | SwapPreTokenForBase string real
  | EnterSettlementPhase Token

datatype retval = RetString string | RetNumber real | RetVoid

fun exec_call :: "LiquidityPool \<Rightarrow> call \<Rightarrow> (error + retval) \<times> LiquidityPool" where
  "exec_call s (AddLiquidity owner0 baseAmount pa pb) =
     (case addLiquidity s owner0 baseAmount pa pb of (r, s') \<Rightarrow> (map_sum (\<lambda>e. e) RetString r, s'))"
| "exec_call s (SwapBaseForPreToken trader baseAmount) =
     (case swapBaseForPreToken s trader baseAmount of (r, s') \<Rightarrow> (map_sum (\<lambda>e. e) RetNumber r, s'))"
| "exec_call s (SwapPreTokenForBase trader preTokenAmount) =
     (case swapPreTokenForBase s trader preTokenAmount of (r, s') \<Rightarrow> (map_sum (\<lambda>e. e) RetNumber r, s'))"
| "exec_call s (EnterSettlementPhase realToken0) =
     (case enterSettlementPhase s realToken0 of (r, s') \<Rightarrow> (map_sum (\<lambda>e. e) (\<lambda>u. RetVoid) r, s'))"

fun run_calls :: "LiquidityPool \<Rightarrow> call list \<Rightarrow> (error + retval) list \<times> LiquidityPool" where
  "run_calls s [] = ([], s)"
| "run_calls s (c # cs) =
     (case exec_call s c of
        (r, s') \<Rightarrow> (case run_calls s' cs of (rs, s'') \<Rightarrow> (r # rs, s'')))"

section \<open>Definitions used to state the properties\<close>

text \<open>The error a call meets once the pool is in the settlement phase.\<close>

definition settled_error :: "call \<Rightarrow> error" where
  "settled_error c =
     (case c of EnterSettlementPhase t \<Rightarrow> AlreadyInSettlement | _ \<Rightarrow> SettlementPhaseViolation)"

text \<open>The position record that a successful \<open>addLiquidity\<close> stores.\<close>

definition addedPosition :: "LiquidityPool \<Rightarrow> string \<Rightarrow> real \<Rightarrow> real \<Rightarrow> real \<Rightarrow> LPPosition" where
  "addedPosition s ow x pa pb =
     \<lparr>id_pos = ''LP-'' @ string_of_nat (nextPositionId s), owner = ow,
      liquidity = x / (1 / sqrt pa - 1 / sqrt pb),
      lowerPriceBound = pa, upperPriceBound = pb, collateralAmount = x,
      initialPreTokenAmount = x * (sqrt pb - sqrt pa) / (1 / sqrt pa - 1 / sqrt pb)\<rparr>"

text \<open>The tokens of the simulation (index.ts), used as concrete inputs.\<close>

definition simBaseToken :: Token where
  "simBaseToken = newToken ''USD Coin'' ''USDC'' 6"

definition simPreToken :: Token where
  "simPreToken = newToken ''Pre-Token X'' ''pX'' 18"

definition simRealToken :: Token where
  "simRealToken = newToken ''Token X'' ''X'' 18"

text \<open>
  The routing part of the two swaps, as a function of the pool alone: the search for the
  first position and the loop, on the positions and the price the pool holds. The swaps
  compute exactly this after their first ledger transfer, which changes neither.
\<close>

definition baseRoute :: "LiquidityPool \<Rightarrow> real \<Rightarrow> (real \<times> real \<times> real) option" where
  "baseRoute s baseAmount =
     (let currentPrice = getCurrentPrice s;
          positions = sort_key lowerPriceBound (map_values (lpPositions s))
      in case (case findIndex (\<lambda>pos. lowerPriceBound pos \<le> currentPrice \<and>
                                      upperPriceBound pos \<ge> currentPrice) positions of
                 Some i \<Rightarrow> Some i
               | None \<Rightarrow> findIndex (\<lambda>pos. lowerPriceBound pos > currentPrice) positions) of
           None \<Rightarrow> None
         | Some i \<Rightarrow>
             Some (swapBaseLoop positions i (baseAmount - baseAmount * feePercentage) 0
                     (sqrt currentPrice)))"

definition preRoute :: "LiquidityPool \<Rightarrow> real \<Rightarrow> (real \<times> real \<times> real) option" where
  "preRoute s preTokenAmount =
     (let currentPrice = getCurrentPrice s;
          positions = sort_key (\<lambda>pos. - upperPriceBound pos) (map_values (lpPositions s))
      in case (case findIndex (\<lambda>pos. lowerPriceBound pos \<le> currentPrice \<and>
                                      upperPriceBound pos \<ge> currentPrice) positions of
                 Some i \<Rightarrow> Some i
               | None \<Rightarrow> findIndex (\<lambda>pos. upperPriceBound pos < currentPrice) positions) of
           None \<Rightarrow> None
         | Some i \<Rightarrow> Some (swapPreLoop positions i preTokenAmount 0 (sqrt currentPrice)))"

text \<open>
  What the pool holds of its own: positions, reserves, price and phase. The ledgers are
  not part of it.
\<close>

definition poolCore ::
  "LiquidityPool \<Rightarrow> (string \<times> LPPosition) list \<times> real \<times> real \<times> real \<times> bool" where
  "poolCore s =
     (lpPositions s, baseReserve s, preTokenReserve s, currentSqrtPrice s, isSettlementPhase s)"

text \<open>The base tokens the pool account holds beyond the base reserve the pool counts.\<close>

definition poolBaseGap :: "LiquidityPool \<Rightarrow> real" where
  "poolBaseGap s = balanceOf (baseToken s) POOL - baseReserve s"

text \<open>
  Both are read off the base reserve before and after a swap: the part of a buyer's
  input, after the fee, that the routing did not use, and the base amount a sale took
  out of the reserve before the fee.
\<close>

definition unusedInput :: "LiquidityPool \<Rightarrow> LiquidityPool \<Rightarrow> real \<Rightarrow> real" where
  "unusedInput s s' baseAmount =
     baseAmount - baseAmount * feePercentage - (baseReserve s' - baseReserve s)"

definition grossOutput :: "LiquidityPool \<Rightarrow> LiquidityPool \<Rightarrow> real" where
  "grossOutput s s' = baseReserve s - baseReserve s'"

text \<open>
  The pools a client can reach from the constructor, called with the given optional
  initial price: by calls of the pool's operations, and by changes that other clients of
  the two ledgers make to them in between.
\<close>

inductive reachableFrom :: "real option \<Rightarrow> LiquidityPool \<Rightarrow> bool" where
  constructed:
    "(case initialPrice of None \<Rightarrow> True | Some ip \<Rightarrow> 0 \<le> ip) \<Longrightarrow>
     reachableFrom initialPrice (newLiquidityPool b p initialPrice)"
| called:
    "reachableFrom initialPrice s \<Longrightarrow> reachableFrom initialPrice (snd (exec_call s c))"
| ledger_changed:
    "reachableFrom initialPrice s \<Longrightarrow>
     reachableFrom initialPrice (s\<lparr>baseToken := b, preToken := p\<rparr>)"

text \<open>
  The flag \<^verbatim>\<open>_initialPriceSet\<close> says that an initial price was given or a position exists.
\<close>

definition priceFlagInv :: "real option \<Rightarrow> LiquidityPool \<Rightarrow> bool" where
  "priceFlagInv initialPrice s \<longleftrightarrow>
     (initialPriceSet s \<longleftrightarrow> initialPrice \<noteq> None \<or> lpPositions s \<noteq> [])"

text \<open>A call that was an \<open>addLiquidity\<close> and returned a position id.\<close>

definition addSucceeded :: "call \<Rightarrow> error + retval \<Rightarrow> bool" where
  "addSucceeded c r =
     (case c of
        AddLiquidity ow x pa pb \<Rightarrow> (case r of Inl e \<Rightarrow> False | Inr v \<Rightarrow> True)
      | _ \<Rightarrow> False)"

text \<open>A pool without a price: no initial price was given and no position exists yet.\<close>

definition unpriced :: "LiquidityPool \<Rightarrow> bool" where
  "unpriced s \<longleftrightarrow> \<not> initialPriceSet s \<and> lpPositions s = [] \<and> currentSqrtPrice s = 0"

text \<open>
  What \<open>addLiquidity\<close> guarantees of a position it stores: a valid range and a positive
  liquidity. A pool is well formed when all its positions are and its square-root price
  is not negative.
\<close>

definition wfPosition :: "LPPosition \<Rightarrow> bool" where
  "wfPosition pos \<longleftrightarrow>
     0 < lowerPriceBound pos \<and> lowerPriceBound pos < upperPriceBound pos \<and> 0 < liquidity pos"

definition wfPositions :: "LiquidityPool \<Rightarrow> bool" where
  "wfPositions s \<longleftrightarrow> list_all wfPosition (map_values (lpPositions s))"

definition wfPool :: "LiquidityPool \<Rightarrow> bool" where
  "wfPool s \<longleftrightarrow> wfPositions s \<and> 0 \<le> currentSqrtPrice s"

text \<open>
  The ranges of a pool are ordered when in the order of ascending lower bounds, in which
  a buy visits them, the upper bounds ascend as well, and in the order of descending
  upper bounds, in which a sell visits them, the lower bounds descend as well. In
  particular no range lies strictly inside another.
\<close>

definition rangesOrdered :: "LiquidityPool \<Rightarrow> bool" where
  "rangesOrdered s \<longleftrightarrow>
     sorted (map upperPriceBound (sort_key lowerPriceBound (map_values (lpPositions s))))
   \<and> sorted (map (\<lambda>pos. - lowerPriceBound pos)
        (sort_key (\<lambda>pos. - upperPriceBound pos) (map_values (lpPositions s))))"

text \<open>
  Concrete pools. The base ledger gives \<open>LP1\<close> 100 and \<open>Trader1\<close> 5000 base tokens, as the
  simulation mints base tokens to its users; \<open>demoPre\<close> is a pre-token ledger on which
  \<open>Trader1\<close> already holds 9 pre-tokens. \<open>demoPoolA\<close> is the pool after \<open>LP1\<close> added
  9 base tokens on the range \<open>[1, 100]\<close> (liquidity 10), \<open>demoPoolB\<close> after \<open>Trader1\<close> then
  bought with 1000 base tokens, \<open>demoPoolC\<close> after \<open>Trader1\<close> then sold 9 pre-tokens.
  \<open>demoPoolDrained\<close> is \<open>demoPoolA\<close> with the pool account's 90 pre-tokens burnt.
\<close>

definition demoBase :: Token where
  "demoBase = snd (mint (snd (mint simBaseToken ''LP1'' 100)) ''Trader1'' 5000)"

definition demoPre :: Token where
  "demoPre = snd (mint simPreToken ''Trader1'' 9)"

definition demoPool :: LiquidityPool where
  "demoPool = newLiquidityPool demoBase simPreToken None"

definition demoPoolA :: LiquidityPool where
  "demoPoolA = snd (addLiquidity demoPool ''LP1'' 9 1 100)"

definition demoPoolB :: LiquidityPool where
  "demoPoolB = snd (swapBaseForPreToken demoPoolA ''Trader1'' 1000)"

definition demoPoolC :: LiquidityPool where
  "demoPoolC = snd (swapPreTokenForBase demoPoolB ''Trader1'' 9)"

definition demoPoolDrained :: LiquidityPool where
  "demoPoolDrained = demoPoolA\<lparr>preToken := snd (burn (preToken demoPoolA) POOL 90)\<rparr>"

text \<open>
  \<open>demoPoolHigh\<close> is constructed with the initial price 100 on the ledgers \<open>demoBase\<close> and
  \<open>demoPre\<close> and holds the position \<open>[1, 100]\<close> of \<open>LP1\<close>, funded with 9 base tokens;
  \<open>demoPoolNested\<close> holds, in addition, the position \<open>[4, 9]\<close> funded with 1 base token.
\<close>

definition demoPoolHigh :: LiquidityPool where
  "demoPoolHigh = snd (addLiquidity (newLiquidityPool demoBase demoPre (Some 100)) ''LP1'' 9 1 100)"

definition demoPoolNested :: LiquidityPool where
  "demoPoolNested = snd (addLiquidity demoPoolHigh ''LP1'' 1 4 9)"

text \<open>
  The recursive equations of the two routing functions and of \<open>string_of_nat\<close> are
  unconditional; they are unfolded by hand or on concrete arguments only.
\<close>

declare swapBaseLoop.simps [simp del] swapPreLoop.simps [simp del] string_of_nat.simps [simp del]

section \<open>Properties of the token ledger\<close>

lemma balanceOf_newToken: "balanceOf (newToken n sy d) a = 0"
  by (simp add: newToken_def balanceOf_def)

lemma balanceOf_mint:
  "0 < amount \<Longrightarrow>
   balanceOf (snd (mint t a amount)) a' = (if a' = a then balanceOf t a + amount else balanceOf t a')"
  by (simp add: mint_def balanceOf_def Let_def)

lemma transfer_balances:
  assumes "0 < amount" "amount \<le> balanceOf t from" "from \<noteq> to"
  shows "balanceOf (snd (transfer t from to amount)) from = balanceOf t from - amount"
    and "balanceOf (snd (transfer t from to amount)) to = balanceOf t to + amount"
    and "a \<noteq> from \<Longrightarrow> a \<noteq> to \<Longrightarrow> balanceOf (snd (transfer t from to amount)) a = balanceOf t a"
  using assms by (simp_all add: transfer_def Let_def balanceOf_def)

section \<open>Properties of PriceCalculator\<close>

lemma sqrt_range_pos:
  assumes "0 < pa" "pa < pb"
  shows "0 < sqrt pa" "sqrt pa < sqrt pb" "0 < 1 / sqrt pa - 1 / sqrt pb"
proof -
  show a: "0 < sqrt pa" using assms by simp
  show b: "sqrt pa < sqrt pb" using assms by simp
  from a b have "1 / sqrt pb < 1 / sqrt pa"
    by (simp add: frac_less2)
  then show "0 < 1 / sqrt pa - 1 / sqrt pb" by simp
qed

lemma inverse_diff_sqrt:
  assumes "0 < pa" "pa < pb"
  shows "1 / sqrt pa - 1 / sqrt pb = (sqrt pb - sqrt pa) / (sqrt pa * sqrt pb)"
proof -
  have "sqrt pa \<noteq> 0" "sqrt pb \<noteq> 0" using assms by simp_all
  then show ?thesis by (simp add: field_simps)
qed

text \<open>
  C4. For all \<open>0 < Pa < Pb\<close> and \<open>x > 0\<close>, the pre-token amount that
  \<open>calculatePreTokenAmount\<close> computes as \<open>x (sqrt Pb - sqrt Pa) / (1 / sqrt Pa - 1 / sqrt Pb)\<close>
  is exactly \<open>x sqrt (Pa Pb)\<close> over the reals.
\<close>

theorem calculatePreTokenAmount_identity:
  assumes "0 < pa" "pa < pb" "0 < x"
  shows "calculatePreTokenAmount x pa pb = Inr (x * sqrt (pa * pb))
       \<and> x * (sqrt pb - sqrt pa) / (1 / sqrt pa - 1 / sqrt pb) = x * sqrt (pa * pb)"
proof -
  have d: "sqrt pb - sqrt pa \<noteq> 0" "sqrt pa \<noteq> 0" "sqrt pb \<noteq> 0"
    using sqrt_range_pos [OF assms(1,2)] assms by simp_all
  have "x * (sqrt pb - sqrt pa) / (1 / sqrt pa - 1 / sqrt pb)
      = x * (sqrt pb - sqrt pa) / ((sqrt pb - sqrt pa) / (sqrt pa * sqrt pb))"
    by (simp only: inverse_diff_sqrt [OF assms(1,2)])
  also have "\<dots> = x * (sqrt pa * sqrt pb)"
    using d by (simp add: field_simps)
  also have "\<dots> = x * sqrt (pa * pb)"
    by (simp add: real_sqrt_mult)
  finally have e: "x * (sqrt pb - sqrt pa) / (1 / sqrt pa - 1 / sqrt pb) = x * sqrt (pa * pb)" .
  have "calculatePreTokenAmount x pa pb = Inr (x * sqrt (pa * pb))"
    using e assms by (simp add: calculatePreTokenAmount_def Let_def)
  with e show ?thesis by simp
qed

text \<open>Scenario A of the specification: \<open>Pa = 1\<close>, \<open>Pb = 5\<close>, \<open>x = 5000\<close>.\<close>

theorem calculatePreTokenAmount_identity_witness:
  "(0::real) < 1 \<and> (1::real) < 5 \<and> (0::real) < 5000
   \<and> calculatePreTokenAmount 5000 1 5 = Inr (5000 * sqrt 5)"
  using calculatePreTokenAmount_identity [of 1 5 5000] by simp

text \<open>
  What the four operations do on an invalid range (\<open>Pa \<le> 0\<close>, \<open>Pb \<le> 0\<close> or \<open>Pa \<ge> Pb\<close>):
  \<open>calculateLiquidity\<close>, \<open>calculatePreTokenAmount\<close> and \<open>calculateBaseAmount\<close> fail with
  \<open>InvalidRange\<close> whatever their first argument is, and so does \<open>calculateCurrentPrice\<close>
  when both reserves are non-zero; its two shortcuts for a zero reserve return before
  the range is looked at.
\<close>

lemma invalid_range_rejected:
  assumes "pa \<le> 0 \<or> pb \<le> 0 \<or> pa \<ge> pb"
  shows "calculateLiquidity x pa pb = Inl InvalidRange
       \<and> calculatePreTokenAmount x pa pb = Inl InvalidRange
       \<and> calculateBaseAmount y pa pb = Inl InvalidRange
       \<and> calculateCurrentPrice b p pa pb =
           (if p = 0 then Inr pa else if b = 0 then Inr pb else Inl InvalidRange)"
  using assms
  by (auto simp add: calculateLiquidity_def calculatePreTokenAmount_def calculateBaseAmount_def
        calculateCurrentPrice_def)

text \<open>
  C5 says that every operation of the calculator, \<open>calculateCurrentPrice\<close> included and
  also with a zero reserve, fails with \<open>InvalidRange\<close> on an invalid range. The code
  misses the check on the two shortcuts of \<open>calculateCurrentPrice\<close>: for the invalid
  range \<open>Pa = 5\<close>, \<open>Pb = 1\<close> it returns \<open>5\<close> when the pre-token reserve is zero and \<open>1\<close>
  when the base reserve is zero, while on the same range it fails with \<open>InvalidRange\<close>
  when both reserves are non-zero, as the three other operations do.
\<close>

theorem calculateCurrentPrice_invalid_range_returns:
  "(5::real) \<ge> 1
   \<and> calculateCurrentPrice 100 0 5 1 = Inr 5
   \<and> calculateCurrentPrice 0 7 5 1 = Inr 1
   \<and> calculateCurrentPrice 100 7 5 1 = Inl InvalidRange
   \<and> calculateLiquidity 100 5 1 = Inl InvalidRange
   \<and> calculatePreTokenAmount 100 5 1 = Inl InvalidRange
   \<and> calculateBaseAmount 100 5 1 = Inl InvalidRange"
  by (simp add: calculateCurrentPrice_def calculateLiquidity_def calculatePreTokenAmount_def
        calculateBaseAmount_def)

section \<open>The settlement phase\<close>

lemma exec_call_settled:
  "isSettlementPhase s \<Longrightarrow> exec_call s c = (Inl (settled_error c), s)"
  by (cases c)
     (simp_all add: settled_error_def addLiquidity_def swapBaseForPreToken_def
        swapPreTokenForBase_def enterSettlementPhase_def)

lemma run_calls_settled:
  "isSettlementPhase s \<Longrightarrow> run_calls s cs = (map (\<lambda>c. Inl (settled_error c)) cs, s)"
  by (induction cs) (simp_all add: exec_call_settled)

text \<open>
  C3. From the trading phase the first \<open>enterSettlementPhase\<close> succeeds, sets the phase
  to settled and stores the real token. After it, whatever sequence of calls follows,
  every \<open>enterSettlementPhase\<close> fails with \<open>AlreadyInSettlement\<close>, every \<open>addLiquidity\<close> and
  every swap fails with \<open>SettlementPhaseViolation\<close>, and the pool stays as the
  transition left it: settled, never trading again.
\<close>

theorem settlement_one_way:
  assumes "\<not> isSettlementPhase s"
  shows "enterSettlementPhase s t = (Inr (), s\<lparr>isSettlementPhase := True, realToken := Some t\<rparr>)
       \<and> run_calls (s\<lparr>isSettlementPhase := True, realToken := Some t\<rparr>) cs
           = (map (\<lambda>c. Inl (settled_error c)) cs, s\<lparr>isSettlementPhase := True, realToken := Some t\<rparr>)
       \<and> isSettlementPhase (snd (run_calls (snd (enterSettlementPhase s t)) cs))
       \<and> realToken (snd (run_calls (snd (enterSettlementPhase s t)) cs)) = Some t"
  using assms by (simp add: enterSettlementPhase_def run_calls_settled)

theorem settlement_one_way_witness:
  "\<not> isSettlementPhase (newLiquidityPool simBaseToken simPreToken None)
   \<and> fst (enterSettlementPhase (newLiquidityPool simBaseToken simPreToken None) simRealToken) = Inr ()
   \<and> fst (run_calls (snd (enterSettlementPhase (newLiquidityPool simBaseToken simPreToken None) simRealToken))
        [EnterSettlementPhase simRealToken, AddLiquidity ''LP1'' 5000 1 5,
         SwapBaseForPreToken ''Trader1'' 2000, SwapPreTokenForBase ''Trader1'' 10])
      = [Inl AlreadyInSettlement, Inl SettlementPhaseViolation, Inl SettlementPhaseViolation,
         Inl SettlementPhaseViolation]
   \<and> isSettlementPhase (snd (run_calls (snd (enterSettlementPhase (newLiquidityPool simBaseToken simPreToken None) simRealToken))
        [EnterSettlementPhase simRealToken, AddLiquidity ''LP1'' 5000 1 5,
         SwapBaseForPreToken ''Trader1'' 2000, SwapPreTokenForBase ''Trader1'' 10]))"
proof -
  have t: "\<not> isSettlementPhase (newLiquidityPool simBaseToken simPreToken None)"
    by (simp add: newLiquidityPool_def)
  show ?thesis
    using t settlement_one_way [OF t, of simRealToken
        "[EnterSettlementPhase simRealToken, AddLiquidity ''LP1'' 5000 1 5,
          SwapBaseForPreToken ''Trader1'' 2000, SwapPreTokenForBase ''Trader1'' 10]"]
    by (simp add: settled_error_def)
qed

section \<open>addLiquidity\<close>

lemma length_map_set_pos: "length (map_set m k v) \<ge> 1"
  by (induction m) auto

lemma addLiquidity_success:
  assumes "\<not> isSettlementPhase s" "0 < x" "2 * x \<le> balanceOf (baseToken s) ow" "0 < pa" "pa < pb"
  shows "addLiquidity s ow x pa pb =
    (Inr (''LP-'' @ string_of_nat (nextPositionId s)),
     s\<lparr>baseToken := snd (transfer (baseToken s) ow POOL (x * 2)),
       baseReserve := baseReserve s + x,
       preTokenReserve := preTokenReserve s + x * (sqrt pb - sqrt pa) / (1 / sqrt pa - 1 / sqrt pb),
       liquidity_pool := liquidity_pool s + x / (1 / sqrt pa - 1 / sqrt pb),
       preToken := snd (mint (preToken s) POOL (x * (sqrt pb - sqrt pa) / (1 / sqrt pa - 1 / sqrt pb))),
       nextPositionId := nextPositionId s + 1,
       lpPositions := map_set (lpPositions s) (''LP-'' @ string_of_nat (nextPositionId s))
                        (addedPosition s ow x pa pb),
       currentSqrtPrice :=
         (if \<not> initialPriceSet s \<and>
             length (map_set (lpPositions s) (''LP-'' @ string_of_nat (nextPositionId s))
                        (addedPosition s ow x pa pb)) = 1
          then sqrt pa else currentSqrtPrice s),
       initialPriceSet :=
         (if \<not> initialPriceSet s \<and>
             length (map_set (lpPositions s) (''LP-'' @ string_of_nat (nextPositionId s))
                        (addedPosition s ow x pa pb)) = 1
          then True else initialPriceSet s)\<rparr>)"
  using assms
  by (simp add: addLiquidity_def Let_def calculatePreTokenAmount_def calculateLiquidity_def
        addedPosition_def)

lemma addLiquidity_failure:
  assumes "\<not> (\<not> isSettlementPhase s \<and> 0 < x \<and> 2 * x \<le> balanceOf (baseToken s) ow \<and> 0 < pa \<and> pa < pb)"
  shows "\<exists>e. addLiquidity s ow x pa pb = (Inl e, s)"
proof -
  consider "isSettlementPhase s"
    | "\<not> isSettlementPhase s" "x \<le> 0"
    | "\<not> isSettlementPhase s" "0 < x" "balanceOf (baseToken s) ow < x * 2"
    | "\<not> isSettlementPhase s" "0 < x" "\<not> balanceOf (baseToken s) ow < x * 2"
      "pa \<ge> pb \<or> pa \<le> 0 \<or> pb \<le> 0"
    using assms by fastforce
  then show ?thesis
  proof cases
    case 1 then show ?thesis by (simp add: addLiquidity_def)
  next
    case 2 then show ?thesis by (simp add: addLiquidity_def)
  next
    case 3 then show ?thesis by (simp add: addLiquidity_def Let_def)
  next
    case 4 then show ?thesis
      by (simp add: addLiquidity_def Let_def calculatePreTokenAmount_def)
  qed
qed

text \<open>
  C7. For a pool in the trading phase, a valid range \<open>0 < Pa < Pb\<close> and \<open>baseAmount > 0\<close>,
  \<open>addLiquidity\<close> fails with \<open>InsufficientBalance\<close> exactly when the owner's base balance is
  below \<open>2 baseAmount\<close> (and then the pool is unchanged); otherwise it succeeds and the base
  ledger is the old one after the transfer of \<open>2 baseAmount\<close> from the owner to the pool
  account: for an owner other than the pool account the owner has \<open>2 baseAmount\<close> less,
  the pool account \<open>2 baseAmount\<close> more, and every other account what it had.
\<close>

theorem addLiquidity_balance_check:
  assumes "\<not> isSettlementPhase s" "0 < pa" "pa < pb" "0 < baseAmount"
  shows "(fst (addLiquidity s ow baseAmount pa pb) = Inl InsufficientBalance
            \<longleftrightarrow> balanceOf (baseToken s) ow < 2 * baseAmount)
       \<and> (balanceOf (baseToken s) ow < 2 * baseAmount
            \<longrightarrow> snd (addLiquidity s ow baseAmount pa pb) = s)
       \<and> (2 * baseAmount \<le> balanceOf (baseToken s) ow \<longrightarrow>
            (\<exists>pid. fst (addLiquidity s ow baseAmount pa pb) = Inr pid)
          \<and> baseToken (snd (addLiquidity s ow baseAmount pa pb))
              = snd (transfer (baseToken s) ow POOL (2 * baseAmount))
          \<and> (ow \<noteq> POOL \<longrightarrow>
                balanceOf (baseToken (snd (addLiquidity s ow baseAmount pa pb))) ow
                  = balanceOf (baseToken s) ow - 2 * baseAmount
              \<and> balanceOf (baseToken (snd (addLiquidity s ow baseAmount pa pb))) POOL
                  = balanceOf (baseToken s) POOL + 2 * baseAmount
              \<and> (\<forall>a. a \<noteq> ow \<and> a \<noteq> POOL \<longrightarrow>
                    balanceOf (baseToken (snd (addLiquidity s ow baseAmount pa pb))) a
                      = balanceOf (baseToken s) a)))"
proof (cases "balanceOf (baseToken s) ow < 2 * baseAmount")
  case True
  then have "addLiquidity s ow baseAmount pa pb = (Inl InsufficientBalance, s)"
    using assms by (simp add: addLiquidity_def Let_def mult.commute)
  then show ?thesis using True by simp
next
  case False
  then have ok: "2 * baseAmount \<le> balanceOf (baseToken s) ow" by simp
  have pos: "0 < 2 * baseAmount" using assms by simp
  note r = addLiquidity_success [OF assms(1) assms(4) ok assms(2,3)]
  have tok: "baseToken (snd (addLiquidity s ow baseAmount pa pb))
      = snd (transfer (baseToken s) ow POOL (2 * baseAmount))"
    by (simp add: r mult.commute)
  show ?thesis
    using False ok transfer_balances [OF pos ok, of POOL]
    by (simp add: tok) (simp add: r)
qed

text \<open>
  Scenario D of the specification: an owner holding exactly \<open>9999\<close> base tokens cannot add
  \<open>5000\<close>; one holding \<open>10000\<close> can, and is left with nothing while the pool account
  holds the \<open>10000\<close>.
\<close>

theorem addLiquidity_balance_check_witness:
  "fst (addLiquidity (newLiquidityPool (snd (mint simBaseToken ''LP1'' 9999)) simPreToken None)
         ''LP1'' 5000 1 5) = Inl InsufficientBalance
   \<and> (\<exists>pid. fst (addLiquidity (newLiquidityPool (snd (mint simBaseToken ''LP1'' 10000)) simPreToken None)
         ''LP1'' 5000 1 5) = Inr pid)
   \<and> balanceOf (baseToken (snd (addLiquidity (newLiquidityPool (snd (mint simBaseToken ''LP1'' 10000)) simPreToken None)
         ''LP1'' 5000 1 5))) ''LP1'' = 0
   \<and> balanceOf (baseToken (snd (addLiquidity (newLiquidityPool (snd (mint simBaseToken ''LP1'' 10000)) simPreToken None)
         ''LP1'' 5000 1 5))) POOL = 10000"
proof -
  let ?s1 = "newLiquidityPool (snd (mint simBaseToken ''LP1'' 9999)) simPreToken None"
  let ?s2 = "newLiquidityPool (snd (mint simBaseToken ''LP1'' 10000)) simPreToken None"
  have p1: "\<not> isSettlementPhase ?s1" and p2: "\<not> isSettlementPhase ?s2"
    by (simp_all add: newLiquidityPool_def)
  have b1: "balanceOf (baseToken ?s1) ''LP1'' = 9999"
    and b2: "balanceOf (baseToken ?s2) ''LP1'' = 10000"
    and b3: "balanceOf (baseToken ?s2) POOL = 0"
    by (simp_all add: newLiquidityPool_def balanceOf_mint simBaseToken_def balanceOf_newToken POOL_def)
  have ne: "''LP1'' \<noteq> POOL" by (simp add: POOL_def)
  have lt: "balanceOf (baseToken ?s1) ''LP1'' < 2 * 5000" by (simp add: b1)
  have ge: "2 * 5000 \<le> balanceOf (baseToken ?s2) ''LP1''" by (simp add: b2)
  have q: "(0::real) < 1" "(1::real) < 5" "(0::real) < 5000" by simp_all
  note t1 = addLiquidity_balance_check [OF p1 q, of "''LP1''"]
  note t2 = addLiquidity_balance_check [OF p2 q, of "''LP1''"]
  have f: "fst (addLiquidity ?s1 ''LP1'' 5000 1 5) = Inl InsufficientBalance"
    using t1 lt by blast
  have g: "\<exists>pid. fst (addLiquidity ?s2 ''LP1'' 5000 1 5) = Inr pid"
    using t2 ge by blast
  have h: "balanceOf (baseToken (snd (addLiquidity ?s2 ''LP1'' 5000 1 5))) ''LP1''
             = balanceOf (baseToken ?s2) ''LP1'' - 2 * 5000"
    using t2 ge ne by blast
  have i: "balanceOf (baseToken (snd (addLiquidity ?s2 ''LP1'' 5000 1 5))) POOL
             = balanceOf (baseToken ?s2) POOL + 2 * 5000"
    using t2 ge ne by blast
  show ?thesis
    using f g h i by (simp add: b2 b3)
qed

section \<open>The structure of the swaps\<close>

text \<open>
  Past its three checks a swap is: the transfer of the input to the pool account, the
  routing, and the commit. When the routing finds no position the exception leaves the
  pool with the input already transferred.
\<close>

lemma swapBaseForPreToken_unfold:
  assumes "\<not> isSettlementPhase s" "0 < baseAmount" "baseAmount \<le> balanceOf (baseToken s) trader"
  shows "swapBaseForPreToken s trader baseAmount =
    (case baseRoute s baseAmount of
       None \<Rightarrow>
         (Inl NoLiquidityAvailable,
          s\<lparr>baseToken := snd (transfer (baseToken s) trader POOL baseAmount)\<rparr>)
     | Some (remaining, out, p) \<Rightarrow>
         (Inr out,
          s\<lparr>baseToken :=
              (if remaining > 0
               then snd (transfer (snd (transfer (baseToken s) trader POOL baseAmount)) POOL trader remaining)
               else snd (transfer (baseToken s) trader POOL baseAmount)),
            baseReserve := baseReserve s + (baseAmount - baseAmount * feePercentage - remaining),
            preTokenReserve := preTokenReserve s - out,
            currentSqrtPrice := p,
            preToken := snd (transfer (preToken s) POOL trader out)\<rparr>))"
  using assms
  by (simp add: swapBaseForPreToken_def baseRoute_def Let_def getCurrentPrice_def
        split: option.split prod.split)

lemma swapPreTokenForBase_unfold:
  assumes "\<not> isSettlementPhase s" "0 < preTokenAmount" "preTokenAmount \<le> balanceOf (preToken s) trader"
  shows "swapPreTokenForBase s trader preTokenAmount =
    (case preRoute s preTokenAmount of
       None \<Rightarrow>
         (Inl NoLiquidityAvailable,
          s\<lparr>preToken := snd (transfer (preToken s) trader POOL preTokenAmount)\<rparr>)
     | Some (remaining, out, p) \<Rightarrow>
         (Inr (out - out * feePercentage),
          s\<lparr>preToken :=
              (if remaining > 0
               then snd (transfer (snd (transfer (preToken s) trader POOL preTokenAmount)) POOL trader remaining)
               else snd (transfer (preToken s) trader POOL preTokenAmount)),
            preTokenReserve := preTokenReserve s + (preTokenAmount - remaining),
            baseReserve := baseReserve s - out,
            currentSqrtPrice := p,
            baseToken := snd (transfer (baseToken s) POOL trader (out - out * feePercentage))\<rparr>))"
  using assms
  by (simp add: swapPreTokenForBase_def preRoute_def Let_def getCurrentPrice_def
        split: option.split prod.split)

lemma swapBase_early:
  assumes "isSettlementPhase s \<or> baseAmount \<le> 0 \<or> balanceOf (baseToken s) trader < baseAmount"
  shows "snd (swapBaseForPreToken s trader baseAmount) = s"
    and "fst (swapBaseForPreToken s trader baseAmount) =
          Inl (if isSettlementPhase s then SettlementPhaseViolation
               else if baseAmount \<le> 0 then NonPositiveAmount else InsufficientBalance)"
  using assms by (auto simp add: swapBaseForPreToken_def Let_def)

lemma swapPre_early:
  assumes "isSettlementPhase s \<or> preTokenAmount \<le> 0 \<or> balanceOf (preToken s) trader < preTokenAmount"
  shows "snd (swapPreTokenForBase s trader preTokenAmount) = s"
    and "fst (swapPreTokenForBase s trader preTokenAmount) =
          Inl (if isSettlementPhase s then SettlementPhaseViolation
               else if preTokenAmount \<le> 0 then NonPositiveAmount else InsufficientBalance)"
  using assms by (auto simp add: swapPreTokenForBase_def Let_def)

lemma route_cong:
  assumes "lpPositions s1 = lpPositions s2" "currentSqrtPrice s1 = currentSqrtPrice s2"
  shows "baseRoute s1 a = baseRoute s2 a" "preRoute s1 a = preRoute s2 a"
  using assms by (simp_all add: baseRoute_def preRoute_def getCurrentPrice_def)

lemma route_empty:
  "lpPositions s = [] \<Longrightarrow> baseRoute s a = None"
  "lpPositions s = [] \<Longrightarrow> preRoute s a = None"
  by (simp_all add: baseRoute_def preRoute_def map_values_def)

lemma swapBase_frame:
  "lpPositions (snd (swapBaseForPreToken s trader amt)) = lpPositions s
   \<and> initialPriceSet (snd (swapBaseForPreToken s trader amt)) = initialPriceSet s"
proof (cases "isSettlementPhase s \<or> amt \<le> 0 \<or> balanceOf (baseToken s) trader < amt")
  case True
  then show ?thesis by (simp add: swapBase_early(1))
next
  case False
  then have a: "\<not> isSettlementPhase s" "0 < amt" "amt \<le> balanceOf (baseToken s) trader"
    by auto
  show ?thesis
    by (simp add: swapBaseForPreToken_unfold [OF a] split: option.split prod.split)
qed

lemma swapPre_frame:
  "lpPositions (snd (swapPreTokenForBase s trader amt)) = lpPositions s
   \<and> initialPriceSet (snd (swapPreTokenForBase s trader amt)) = initialPriceSet s"
proof (cases "isSettlementPhase s \<or> amt \<le> 0 \<or> balanceOf (preToken s) trader < amt")
  case True
  then show ?thesis by (simp add: swapPre_early(1))
next
  case False
  then have a: "\<not> isSettlementPhase s" "0 < amt" "amt \<le> balanceOf (preToken s) trader"
    by auto
  show ?thesis
    by (simp add: swapPreTokenForBase_unfold [OF a] split: option.split prod.split)
qed

section \<open>Evaluation on concrete pools\<close>

lemma sqrt_100: "sqrt 100 = 10" by (rule real_sqrt_unique) simp_all

lemma sqrt_9: "sqrt 9 = 3" by (rule real_sqrt_unique) simp_all

lemmas eval_simps = demoPool_def demoBase_def demoPre_def simBaseToken_def simPreToken_def
  newToken_def newLiquidityPool_def addLiquidity_def Let_def mint_def burn_def transfer_def
  balanceOf_def POOL_def calculatePreTokenAmount_def calculateLiquidity_def sqrt_100 sqrt_9
  string_of_nat.simps swapBaseForPreToken_def swapPreTokenForBase_def getCurrentPrice_def
  map_values_def feePercentage_def swapBaseLoop.simps swapPreLoop.simps poolBaseGap_def
  poolCore_def demoPoolA_def demoPoolB_def demoPoolC_def demoPoolDrained_def
  demoPoolHigh_def demoPoolNested_def unusedInput_def grossOutput_def

lemma pair_fst_snd: "fst r = a \<Longrightarrow> snd r = b \<Longrightarrow> r = (a, b)"
  by auto

section \<open>Failure with NoLiquidityAvailable\<close>

text \<open>
  Every failure of a swap other than \<open>NoLiquidityAvailable\<close> leaves the pool and the
  ledgers as they were. \<open>NoLiquidityAvailable\<close> leaves the pool with the input moved from
  the trader to the pool account.
\<close>

lemma swapBase_failure_state:
  assumes "fst (swapBaseForPreToken s trader amt) = Inl e"
  shows "(e \<noteq> NoLiquidityAvailable \<longrightarrow> snd (swapBaseForPreToken s trader amt) = s)
       \<and> (e = NoLiquidityAvailable \<longrightarrow>
            snd (swapBaseForPreToken s trader amt)
              = s\<lparr>baseToken := snd (transfer (baseToken s) trader POOL amt)\<rparr>)"
proof (cases "isSettlementPhase s \<or> amt \<le> 0 \<or> balanceOf (baseToken s) trader < amt")
  case True
  then show ?thesis
    using assms swapBase_early [OF True] by (auto split: if_splits)
next
  case False
  then have a: "\<not> isSettlementPhase s" "0 < amt" "amt \<le> balanceOf (baseToken s) trader"
    by auto
  show ?thesis
    using assms
    by (cases "baseRoute s amt") (auto simp add: swapBaseForPreToken_unfold [OF a])
qed

lemma swapPre_failure_state:
  assumes "fst (swapPreTokenForBase s trader amt) = Inl e"
  shows "(e \<noteq> NoLiquidityAvailable \<longrightarrow> snd (swapPreTokenForBase s trader amt) = s)
       \<and> (e = NoLiquidityAvailable \<longrightarrow>
            snd (swapPreTokenForBase s trader amt)
              = s\<lparr>preToken := snd (transfer (preToken s) trader POOL amt)\<rparr>)"
proof (cases "isSettlementPhase s \<or> amt \<le> 0 \<or> balanceOf (preToken s) trader < amt")
  case True
  then show ?thesis
    using assms swapPre_early [OF True] by (auto split: if_splits)
next
  case False
  then have a: "\<not> isSettlementPhase s" "0 < amt" "amt \<le> balanceOf (preToken s) trader"
    by auto
  show ?thesis
    using assms
    by (cases "preRoute s amt") (auto simp add: swapPreTokenForBase_unfold [OF a])
qed

text \<open>
  C1 says that a swap failing with \<open>NoLiquidityAvailable\<close> leaves the pool and every
  ledger balance as they were. The code transfers the input from the trader to the pool
  account before it looks for a position, and the exception does not undo the transfer.
  On a pool without positions, \<open>Trader1\<close> holding 5000 base tokens and swapping 2000
  meets \<open>NoLiquidityAvailable\<close>; the pool's own state is unchanged, but \<open>Trader1\<close> is left
  with 3000 and the pool account holds the 2000. The same happens to the 9 pre-tokens
  of a seller.
\<close>

theorem noLiquidity_failure_moves_funds:
  "fst (swapBaseForPreToken demoPool ''Trader1'' 2000) = Inl NoLiquidityAvailable
   \<and> poolCore (snd (swapBaseForPreToken demoPool ''Trader1'' 2000)) = poolCore demoPool
   \<and> balanceOf (baseToken demoPool) ''Trader1'' = 5000
   \<and> balanceOf (baseToken demoPool) POOL = 0
   \<and> balanceOf (baseToken (snd (swapBaseForPreToken demoPool ''Trader1'' 2000))) ''Trader1'' = 3000
   \<and> balanceOf (baseToken (snd (swapBaseForPreToken demoPool ''Trader1'' 2000))) POOL = 2000
   \<and> fst (swapPreTokenForBase (newLiquidityPool demoBase demoPre None) ''Trader1'' 9)
        = Inl NoLiquidityAvailable
   \<and> balanceOf (preToken (newLiquidityPool demoBase demoPre None)) ''Trader1'' = 9
   \<and> balanceOf (preToken (snd (swapPreTokenForBase (newLiquidityPool demoBase demoPre None)
        ''Trader1'' 9))) ''Trader1'' = 0
   \<and> balanceOf (preToken (snd (swapPreTokenForBase (newLiquidityPool demoBase demoPre None)
        ''Trader1'' 9))) POOL = 9"
  by (simp add: eval_simps)

section \<open>The direction of the price\<close>

text \<open>
  C2 says that a successful \<open>swapBaseForPreToken\<close> never lowers \<open>currentSqrtPrice\<close> and a
  successful \<open>swapPreTokenForBase\<close> never raises it, also with nested ranges. Both
  routing functions clamp the price into each position they visit, and a position
  nested in an earlier one can lie wholly on the wrong side of the price. \<open>LP1\<close> adds 9
  base tokens on \<open>[1, 100]\<close>, \<open>Trader1\<close> buys with 1000 (the square-root price reaches
  \<open>sqrt 100 = 10\<close>), \<open>LP1\<close> adds 1 base token on \<open>[4, 9]\<close>, and \<open>Trader1\<close> buys with 1000
  again: the call returns \<open>-7/5\<close> pre-tokens and leaves the square-root price at \<open>3\<close>,
  below the \<open>10\<close> it started from.
\<close>

theorem nested_range_buy_lowers_price:
  "fst (run_calls demoPool
          [AddLiquidity ''LP1'' 9 1 100, SwapBaseForPreToken ''Trader1'' 1000,
           AddLiquidity ''LP1'' 1 4 9])
     = [Inr (RetString ''LP-1''), Inr (RetNumber 9), Inr (RetString ''LP-2'')]
   \<and> currentSqrtPrice (snd (run_calls demoPool
          [AddLiquidity ''LP1'' 9 1 100, SwapBaseForPreToken ''Trader1'' 1000,
           AddLiquidity ''LP1'' 1 4 9])) = 10
   \<and> fst (swapBaseForPreToken (snd (run_calls demoPool
          [AddLiquidity ''LP1'' 9 1 100, SwapBaseForPreToken ''Trader1'' 1000,
           AddLiquidity ''LP1'' 1 4 9])) ''Trader1'' 1000) = Inr (- (7 / 5))
   \<and> currentSqrtPrice (snd (swapBaseForPreToken (snd (run_calls demoPool
          [AddLiquidity ''LP1'' 9 1 100, SwapBaseForPreToken ''Trader1'' 1000,
           AddLiquidity ''LP1'' 1 4 9])) ''Trader1'' 1000)) = 3"
  by (simp add: eval_simps)

text \<open>
  The mirror image on the selling side: with the same two positions and the price at
  \<open>1\<close>, selling one pre-token returns a negative base amount and raises the square-root
  price to \<open>2\<close>.
\<close>

lemma nested_range_sell_raises_price:
  "fst (run_calls (newLiquidityPool demoBase demoPre None)
          [AddLiquidity ''LP1'' 9 1 100, AddLiquidity ''LP1'' 1 4 9])
     = [Inr (RetString ''LP-1''), Inr (RetString ''LP-2'')]
   \<and> currentSqrtPrice (snd (run_calls (newLiquidityPool demoBase demoPre None)
          [AddLiquidity ''LP1'' 9 1 100, AddLiquidity ''LP1'' 1 4 9])) = 1
   \<and> fst (swapPreTokenForBase (snd (run_calls (newLiquidityPool demoBase demoPre None)
          [AddLiquidity ''LP1'' 9 1 100, AddLiquidity ''LP1'' 1 4 9])) ''Trader1'' 1)
        = Inr (- (2991 / 500))
   \<and> currentSqrtPrice (snd (swapPreTokenForBase (snd (run_calls (newLiquidityPool demoBase demoPre None)
          [AddLiquidity ''LP1'' 9 1 100, AddLiquidity ''LP1'' 1 4 9])) ''Trader1'' 1)) = 2"
  by (simp add: eval_simps)

section \<open>The swaps do not read the pool account's balances\<close>

lemma swapBase_core:
  assumes "poolCore s1 = poolCore s2"
    "amt \<le> balanceOf (baseToken s1) trader" "amt \<le> balanceOf (baseToken s2) trader"
  shows "fst (swapBaseForPreToken s1 trader amt) = fst (swapBaseForPreToken s2 trader amt)
       \<and> poolCore (snd (swapBaseForPreToken s1 trader amt))
           = poolCore (snd (swapBaseForPreToken s2 trader amt))"
proof -
  have c: "lpPositions s1 = lpPositions s2" "currentSqrtPrice s1 = currentSqrtPrice s2"
    "baseReserve s1 = baseReserve s2" "preTokenReserve s1 = preTokenReserve s2"
    "isSettlementPhase s1 = isSettlementPhase s2"
    using assms(1) by (simp_all add: poolCore_def)
  show ?thesis
  proof (cases "isSettlementPhase s1 \<or> amt \<le> 0")
    case True
    then have "isSettlementPhase s1 \<or> amt \<le> 0 \<or> balanceOf (baseToken s1) trader < amt"
      and "isSettlementPhase s2 \<or> amt \<le> 0 \<or> balanceOf (baseToken s2) trader < amt"
      using c(5) by auto
    then show ?thesis
      using assms(1) c(5) by (simp add: swapBase_early)
  next
    case False
    then have a: "\<not> isSettlementPhase s1" "\<not> isSettlementPhase s2" "0 < amt"
      using c(5) by auto
    show ?thesis
      using c
      by (simp add: swapBaseForPreToken_unfold [OF a(1) a(3) assms(2)]
            swapBaseForPreToken_unfold [OF a(2) a(3) assms(3)]
            route_cong(1) [OF c(1,2)] poolCore_def split: option.split prod.split)
  qed
qed

lemma swapPre_core:
  assumes "poolCore s1 = poolCore s2"
    "amt \<le> balanceOf (preToken s1) trader" "amt \<le> balanceOf (preToken s2) trader"
  shows "fst (swapPreTokenForBase s1 trader amt) = fst (swapPreTokenForBase s2 trader amt)
       \<and> poolCore (snd (swapPreTokenForBase s1 trader amt))
           = poolCore (snd (swapPreTokenForBase s2 trader amt))"
proof -
  have c: "lpPositions s1 = lpPositions s2" "currentSqrtPrice s1 = currentSqrtPrice s2"
    "baseReserve s1 = baseReserve s2" "preTokenReserve s1 = preTokenReserve s2"
    "isSettlementPhase s1 = isSettlementPhase s2"
    using assms(1) by (simp_all add: poolCore_def)
  show ?thesis
  proof (cases "isSettlementPhase s1 \<or> amt \<le> 0")
    case True
    then have "isSettlementPhase s1 \<or> amt \<le> 0 \<or> balanceOf (preToken s1) trader < amt"
      and "isSettlementPhase s2 \<or> amt \<le> 0 \<or> balanceOf (preToken s2) trader < amt"
      using c(5) by auto
    then show ?thesis
      using assms(1) c(5) by (simp add: swapPre_early)
  next
    case False
    then have a: "\<not> isSettlementPhase s1" "\<not> isSettlementPhase s2" "0 < amt"
      using c(5) by auto
    show ?thesis
      using c
      by (simp add: swapPreTokenForBase_unfold [OF a(1) a(3) assms(2)]
            swapPreTokenForBase_unfold [OF a(2) a(3) assms(3)]
            route_cong(2) [OF c(1,2)] poolCore_def split: option.split prod.split)
  qed
qed

text \<open>
  C9. The pool drops the boolean that \<open>mint\<close> and \<open>transfer\<close> return, and a swap reads the
  ledgers only to check the trader's balance. So for two pools with the same core
  (positions, reserves, price, phase), whatever their ledgers hold, a swap by a trader
  whose balance suffices in both returns the same result and leaves the same core: in
  particular when the two differ only in what the pool account holds, and a transfer
  out of the pool account returns \<open>False\<close> in one of them.
\<close>

theorem swap_outcome_independent_of_ledger:
  assumes "poolCore s1 = poolCore s2"
  shows "(amt \<le> balanceOf (baseToken s1) trader \<and> amt \<le> balanceOf (baseToken s2) trader \<longrightarrow>
            fst (swapBaseForPreToken s1 trader amt) = fst (swapBaseForPreToken s2 trader amt)
          \<and> poolCore (snd (swapBaseForPreToken s1 trader amt))
              = poolCore (snd (swapBaseForPreToken s2 trader amt)))
       \<and> (amt \<le> balanceOf (preToken s1) trader \<and> amt \<le> balanceOf (preToken s2) trader \<longrightarrow>
            fst (swapPreTokenForBase s1 trader amt) = fst (swapPreTokenForBase s2 trader amt)
          \<and> poolCore (snd (swapPreTokenForBase s1 trader amt))
              = poolCore (snd (swapPreTokenForBase s2 trader amt)))"
  using swapBase_core [OF assms] swapPre_core [OF assms] by blast

text \<open>
  \<open>demoPoolDrained\<close> differs from \<open>demoPoolA\<close> only in the pool account's pre-token
  balance (0 instead of 90). Buying with 1000 base tokens returns 9 pre-tokens in
  both and leaves the same reserves and price, although in the drained pool the
  transfer of the 9 pre-tokens returns \<open>False\<close> and the trader receives nothing.
\<close>

theorem swap_outcome_independent_of_ledger_witness:
  "poolCore demoPoolA = poolCore demoPoolDrained
   \<and> balanceOf (preToken demoPoolA) POOL = 90
   \<and> balanceOf (preToken demoPoolDrained) POOL = 0
   \<and> fst (swapBaseForPreToken demoPoolA ''Trader1'' 1000) = Inr 9
   \<and> fst (swapBaseForPreToken demoPoolDrained ''Trader1'' 1000) = Inr 9
   \<and> poolCore (snd (swapBaseForPreToken demoPoolA ''Trader1'' 1000))
       = poolCore (snd (swapBaseForPreToken demoPoolDrained ''Trader1'' 1000))
   \<and> fst (transfer (preToken demoPoolDrained) POOL ''Trader1'' 9) = False
   \<and> balanceOf (preToken (snd (swapBaseForPreToken demoPoolA ''Trader1'' 1000))) ''Trader1'' = 9
   \<and> balanceOf (preToken (snd (swapBaseForPreToken demoPoolDrained ''Trader1'' 1000))) ''Trader1'' = 0"
proof -
  have pc: "poolCore demoPoolA = poolCore demoPoolDrained"
    by (simp add: demoPoolDrained_def poolCore_def)
  have b: "1000 \<le> balanceOf (baseToken demoPoolA) ''Trader1''"
    "1000 \<le> balanceOf (baseToken demoPoolDrained) ''Trader1''"
    by (simp_all add: eval_simps)
  have eq: "fst (swapBaseForPreToken demoPoolA ''Trader1'' 1000)
              = fst (swapBaseForPreToken demoPoolDrained ''Trader1'' 1000)
          \<and> poolCore (snd (swapBaseForPreToken demoPoolA ''Trader1'' 1000))
              = poolCore (snd (swapBaseForPreToken demoPoolDrained ''Trader1'' 1000))"
    using swap_outcome_independent_of_ledger [OF pc, of 1000 "''Trader1''"] b by blast
  have v: "fst (swapBaseForPreToken demoPoolA ''Trader1'' 1000) = Inr 9"
    by (simp add: eval_simps)
  have l: "balanceOf (preToken demoPoolA) POOL = 90"
    "balanceOf (preToken demoPoolDrained) POOL = 0"
    "fst (transfer (preToken demoPoolDrained) POOL ''Trader1'' 9) = False"
    "balanceOf (preToken (snd (swapBaseForPreToken demoPoolA ''Trader1'' 1000))) ''Trader1'' = 9"
    "balanceOf (preToken (snd (swapBaseForPreToken demoPoolDrained ''Trader1'' 1000))) ''Trader1'' = 0"
    by (simp_all add: eval_simps)
  show ?thesis
    using pc eq v l by simp
qed

section \<open>addLiquidity and the current price\<close>

lemma map_set_not_Nil: "map_set m k v \<noteq> []"
  by (cases m) (auto split: if_splits)

lemma addLiquidity_cases:
  obtains (ok) "\<not> isSettlementPhase s" "0 < x" "2 * x \<le> balanceOf (baseToken s) ow" "0 < pa" "pa < pb"
  | (failed) e where "addLiquidity s ow x pa pb = (Inl e, s)"
  using addLiquidity_failure [of s x ow pa pb] by blast

lemma addLiquidity_priceFlagInv:
  assumes "priceFlagInv ip s"
  shows "priceFlagInv ip (snd (addLiquidity s ow x pa pb))"
proof (cases rule: addLiquidity_cases [of s x ow pa pb])
  case ok
  show ?thesis
    using assms
    by (cases "lpPositions s")
       (auto simp add: addLiquidity_success [OF ok] priceFlagInv_def map_set_not_Nil)
next
  case (failed e)
  then show ?thesis using assms by simp
qed

lemma exec_call_priceFlagInv:
  assumes "priceFlagInv ip s"
  shows "priceFlagInv ip (snd (exec_call s c))"
proof (cases c)
  case (AddLiquidity ow x pa pb)
  then show ?thesis
    using addLiquidity_priceFlagInv [OF assms, of ow x pa pb]
    by (simp add: case_prod_unfold)
next
  case (SwapBaseForPreToken trader amt)
  then show ?thesis
    using assms swapBase_frame [of s trader amt]
    by (simp add: priceFlagInv_def case_prod_unfold)
next
  case (SwapPreTokenForBase trader amt)
  then show ?thesis
    using assms swapPre_frame [of s trader amt]
    by (simp add: priceFlagInv_def case_prod_unfold)
next
  case (EnterSettlementPhase t)
  then show ?thesis
    using assms by (simp add: priceFlagInv_def enterSettlementPhase_def)
qed

lemma reachableFrom_priceFlagInv:
  "reachableFrom ip s \<Longrightarrow> priceFlagInv ip s"
proof (induction rule: reachableFrom.induct)
  case (constructed initialPrice b p)
  show ?case
    by (cases initialPrice) (simp_all add: priceFlagInv_def newLiquidityPool_def)
next
  case (called initialPrice s c)
  then show ?case by (simp add: exec_call_priceFlagInv)
next
  case (ledger_changed initialPrice s b p)
  then show ?case by (simp add: priceFlagInv_def)
qed

text \<open>
  C6. In every pool reachable from the constructor, a successful \<open>addLiquidity\<close> leaves
  \<open>currentSqrtPrice\<close> unchanged when an initial price was given at construction or a
  position exists already; when no initial price was given and the call creates the
  first position, it sets \<open>currentSqrtPrice\<close> to the root of that position's \<open>Pa\<close>.
\<close>

theorem addLiquidity_price_frame:
  assumes "reachableFrom initialPrice s" "addLiquidity s ow x pa pb = (Inr pid, s')"
  shows "(initialPrice \<noteq> None \<or> lpPositions s \<noteq> [] \<longrightarrow> currentSqrtPrice s' = currentSqrtPrice s)
       \<and> (initialPrice = None \<and> lpPositions s = [] \<longrightarrow> currentSqrtPrice s' = sqrt pa)"
proof (cases rule: addLiquidity_cases [of s x ow pa pb])
  case ok
  have inv: "initialPriceSet s \<longleftrightarrow> initialPrice \<noteq> None \<or> lpPositions s \<noteq> []"
    using reachableFrom_priceFlagInv [OF assms(1)] by (simp add: priceFlagInv_def)
  have "s' = snd (addLiquidity s ow x pa pb)"
    using assms(2) by simp
  then show ?thesis
    using inv by (auto simp add: addLiquidity_success [OF ok])
next
  case (failed e)
  then show ?thesis using assms(2) by simp
qed

text \<open>
  With the initial price 2 the first position leaves the price at \<open>sqrt 2\<close>; without an
  initial price the first position \<open>[1, 100]\<close> sets it to \<open>1\<close>, and the second position
  \<open>[4, 9]\<close> leaves it there.
\<close>

theorem addLiquidity_price_frame_witness:
  "reachableFrom (Some 2) (newLiquidityPool demoBase simPreToken (Some 2))
   \<and> fst (addLiquidity (newLiquidityPool demoBase simPreToken (Some 2)) ''LP1'' 9 1 100) = Inr ''LP-1''
   \<and> currentSqrtPrice (snd (addLiquidity (newLiquidityPool demoBase simPreToken (Some 2)) ''LP1'' 9 1 100))
        = sqrt 2
   \<and> reachableFrom None demoPool
   \<and> fst (addLiquidity demoPool ''LP1'' 9 1 100) = Inr ''LP-1''
   \<and> currentSqrtPrice (snd (addLiquidity demoPool ''LP1'' 9 1 100)) = 1
   \<and> reachableFrom None demoPoolA
   \<and> fst (addLiquidity demoPoolA ''LP1'' 1 4 9) = Inr ''LP-2''
   \<and> currentSqrtPrice (snd (addLiquidity demoPoolA ''LP1'' 1 4 9)) = 1"
proof -
  let ?sI = "newLiquidityPool demoBase simPreToken (Some 2)"
  have r1: "reachableFrom (Some 2) ?sI"
    by (rule reachableFrom.constructed) simp
  have r2: "reachableFrom None demoPool"
    unfolding demoPool_def by (rule reachableFrom.constructed) simp
  have "reachableFrom None (snd (exec_call demoPool (AddLiquidity ''LP1'' 9 1 100)))"
    using r2 by (rule reachableFrom.called)
  then have r3: "reachableFrom None demoPoolA"
    by (simp add: demoPoolA_def case_prod_unfold)
  have f1: "fst (addLiquidity ?sI ''LP1'' 9 1 100) = Inr ''LP-1''"
    and f2: "fst (addLiquidity demoPool ''LP1'' 9 1 100) = Inr ''LP-1''"
    and f3: "fst (addLiquidity demoPoolA ''LP1'' 1 4 9) = Inr ''LP-2''"
    by (simp_all add: eval_simps)
  have p1: "lpPositions demoPool = []" and p2: "lpPositions demoPoolA \<noteq> []"
    and c1: "currentSqrtPrice ?sI = sqrt 2" and c3: "currentSqrtPrice demoPoolA = 1"
    by (simp_all add: eval_simps)
  have e1: "currentSqrtPrice (snd (addLiquidity ?sI ''LP1'' 9 1 100)) = currentSqrtPrice ?sI"
    using addLiquidity_price_frame [OF r1 pair_fst_snd [OF f1 refl]] by simp
  have e2: "currentSqrtPrice (snd (addLiquidity demoPool ''LP1'' 9 1 100)) = sqrt 1"
    using addLiquidity_price_frame [OF r2 pair_fst_snd [OF f2 refl]] p1 by blast
  have e3: "currentSqrtPrice (snd (addLiquidity demoPoolA ''LP1'' 1 4 9)) = currentSqrtPrice demoPoolA"
    using addLiquidity_price_frame [OF r3 pair_fst_snd [OF f3 refl]] p2 by blast
  show ?thesis
    using r1 r2 r3 f1 f2 f3 e1 e2 e3 c1 c3 by simp
qed

section \<open>A pool constructed without an initial price\<close>

lemma swapBase_unpriced:
  assumes "unpriced s"
  shows "unpriced (snd (swapBaseForPreToken s trader amt))"
proof (cases "isSettlementPhase s \<or> amt \<le> 0 \<or> balanceOf (baseToken s) trader < amt")
  case True
  then show ?thesis using assms by (simp add: swapBase_early(1))
next
  case False
  then have a: "\<not> isSettlementPhase s" "0 < amt" "amt \<le> balanceOf (baseToken s) trader"
    by auto
  have "lpPositions s = []" using assms by (simp add: unpriced_def)
  then show ?thesis
    using assms by (simp add: swapBaseForPreToken_unfold [OF a] route_empty unpriced_def)
qed

lemma swapPre_unpriced:
  assumes "unpriced s"
  shows "unpriced (snd (swapPreTokenForBase s trader amt))"
proof (cases "isSettlementPhase s \<or> amt \<le> 0 \<or> balanceOf (preToken s) trader < amt")
  case True
  then show ?thesis using assms by (simp add: swapPre_early(1))
next
  case False
  then have a: "\<not> isSettlementPhase s" "0 < amt" "amt \<le> balanceOf (preToken s) trader"
    by auto
  have "lpPositions s = []" using assms by (simp add: unpriced_def)
  then show ?thesis
    using assms by (simp add: swapPreTokenForBase_unfold [OF a] route_empty unpriced_def)
qed

lemma exec_call_unpriced:
  assumes "unpriced s" "\<not> addSucceeded c (fst (exec_call s c))"
  shows "unpriced (snd (exec_call s c))"
proof (cases c)
  case (AddLiquidity ow x pa pb)
  show ?thesis
  proof (cases rule: addLiquidity_cases [of s x ow pa pb])
    case ok
    then show ?thesis
      using assms(2) AddLiquidity
      by (simp add: addLiquidity_success [OF ok] addSucceeded_def)
  next
    case (failed e)
    then show ?thesis using assms(1) AddLiquidity by simp
  qed
next
  case (SwapBaseForPreToken trader amt)
  then show ?thesis
    using swapBase_unpriced [OF assms(1), of trader amt] by (simp add: case_prod_unfold)
next
  case (SwapPreTokenForBase trader amt)
  then show ?thesis
    using swapPre_unpriced [OF assms(1), of trader amt] by (simp add: case_prod_unfold)
next
  case (EnterSettlementPhase t)
  then show ?thesis
    using assms(1) by (simp add: unpriced_def enterSettlementPhase_def)
qed

lemma run_calls_unpriced:
  assumes "unpriced s" "run_calls s cs = (rs, s')" "list_all2 (\<lambda>c r. \<not> addSucceeded c r) cs rs"
  shows "unpriced s'"
  using assms
proof (induction cs arbitrary: s rs s')
  case Nil
  then show ?case by simp
next
  case (Cons c cs)
  obtain r s1 where e: "exec_call s c = (r, s1)" by (cases "exec_call s c")
  obtain rs1 s2 where r: "run_calls s1 cs = (rs1, s2)" by (cases "run_calls s1 cs")
  have eq: "rs = r # rs1" "s' = s2"
    using Cons.prems(2) e r by simp_all
  have "\<not> addSucceeded c r" and l: "list_all2 (\<lambda>c r. \<not> addSucceeded c r) cs rs1"
    using Cons.prems(3) eq by simp_all
  then have "unpriced s1"
    using exec_call_unpriced [OF Cons.prems(1), of c] e by simp
  then show ?case
    using Cons.IH [OF _ r l] eq by simp
qed

text \<open>
  C10. A pool constructed without an initial price has \<open>currentSqrtPrice = 0\<close>. After any
  sequence of calls in which no \<open>addLiquidity\<close> succeeded, \<open>currentSqrtPrice\<close> is still \<open>0\<close>
  and \<open>getCurrentPrice\<close> returns \<open>0\<close>, which lies in no valid range \<open>0 < Pa < Pb\<close>; and the
  first \<open>addLiquidity\<close> that succeeds sets \<open>currentSqrtPrice\<close> to the root of its \<open>Pa\<close>, so
  that \<open>getCurrentPrice\<close> returns \<open>Pa\<close>.
\<close>

theorem no_initial_price_means_price_zero:
  assumes "run_calls (newLiquidityPool b p None) cs = (rs, s)"
    and "list_all2 (\<lambda>c r. \<not> addSucceeded c r) cs rs"
  shows "currentSqrtPrice (newLiquidityPool b p None) = 0
       \<and> currentSqrtPrice s = 0 \<and> getCurrentPrice s = 0
       \<and> (\<forall>pa pb. 0 < pa \<and> pa < pb \<longrightarrow> \<not> (pa \<le> getCurrentPrice s \<and> getCurrentPrice s \<le> pb))
       \<and> (\<forall>ow x pa pb pid s'. addLiquidity s ow x pa pb = (Inr pid, s') \<longrightarrow>
              currentSqrtPrice s' = sqrt pa \<and> getCurrentPrice s' = pa)"
proof -
  have "unpriced (newLiquidityPool b p None)"
    by (simp add: unpriced_def newLiquidityPool_def)
  then have u: "unpriced s"
    using run_calls_unpriced assms by blast
  then have z: "currentSqrtPrice s = 0" "getCurrentPrice s = 0"
    by (simp_all add: unpriced_def getCurrentPrice_def)
  have add: "currentSqrtPrice s' = sqrt pa \<and> getCurrentPrice s' = pa"
    if "addLiquidity s ow x pa pb = (Inr pid, s')" for ow x pa pb pid s'
  proof (cases rule: addLiquidity_cases [of s x ow pa pb])
    case ok
    have "s' = snd (addLiquidity s ow x pa pb)" using that by simp
    then have "currentSqrtPrice s' = sqrt pa"
      using u by (simp add: addLiquidity_success [OF ok] unpriced_def)
    then show ?thesis
      using ok by (simp add: getCurrentPrice_def)
  next
    case (failed e)
    then show ?thesis using that by simp
  qed
  show ?thesis
    using z add by (auto simp add: newLiquidityPool_def)
qed

theorem no_initial_price_means_price_zero_witness:
  "fst (run_calls (newLiquidityPool demoBase simPreToken None)
          [SwapBaseForPreToken ''Trader1'' 2000, AddLiquidity ''LP1'' 5000 1 5])
     = [Inl NoLiquidityAvailable, Inl InsufficientBalance]
   \<and> getCurrentPrice (snd (run_calls (newLiquidityPool demoBase simPreToken None)
          [SwapBaseForPreToken ''Trader1'' 2000, AddLiquidity ''LP1'' 5000 1 5])) = 0
   \<and> fst (addLiquidity (snd (run_calls (newLiquidityPool demoBase simPreToken None)
          [SwapBaseForPreToken ''Trader1'' 2000, AddLiquidity ''LP1'' 5000 1 5])) ''LP1'' 9 4 9)
     = Inr ''LP-1''
   \<and> currentSqrtPrice (snd (addLiquidity (snd (run_calls (newLiquidityPool demoBase simPreToken None)
          [SwapBaseForPreToken ''Trader1'' 2000, AddLiquidity ''LP1'' 5000 1 5])) ''LP1'' 9 4 9))
     = 2
   \<and> getCurrentPrice (snd (addLiquidity (snd (run_calls (newLiquidityPool demoBase simPreToken None)
          [SwapBaseForPreToken ''Trader1'' 2000, AddLiquidity ''LP1'' 5000 1 5])) ''LP1'' 9 4 9))
     = 4"
proof -
  let ?cs = "[SwapBaseForPreToken ''Trader1'' 2000, AddLiquidity ''LP1'' 5000 1 5]"
  let ?r = "run_calls (newLiquidityPool demoBase simPreToken None) ?cs"
  have f: "fst ?r = [Inl NoLiquidityAvailable, Inl InsufficientBalance]"
    by (simp add: eval_simps)
  have l: "list_all2 (\<lambda>c r. \<not> addSucceeded c r) ?cs [Inl NoLiquidityAvailable, Inl InsufficientBalance]"
    by (simp add: addSucceeded_def)
  note t = no_initial_price_means_price_zero [OF pair_fst_snd [OF f refl] l]
  have a: "fst (addLiquidity (snd ?r) ''LP1'' 9 4 9) = Inr ''LP-1''"
    by (simp add: eval_simps)
  have "currentSqrtPrice (snd (addLiquidity (snd ?r) ''LP1'' 9 4 9)) = sqrt 4
      \<and> getCurrentPrice (snd (addLiquidity (snd ?r) ''LP1'' 9 4 9)) = 4"
    using t pair_fst_snd [OF a refl] by blast
  then show ?thesis
    using f a t by simp
qed

section \<open>The direction of the price when the ranges are ordered\<close>

text \<open>
  The defect behind C2 needs a nested range. Every pool reachable from the constructor
  is well formed, and while its ranges are ordered a successful \<open>swapBaseForPreToken\<close>
  does not lower \<open>currentSqrtPrice\<close> and a successful \<open>swapPreTokenForBase\<close> does not raise
  it.
\<close>

lemma swapBaseLoop_stop:
  assumes "\<not> (0 < r \<and> i < length ps)"
  shows "swapBaseLoop ps i r t p = (r, t, p)"
  by (subst swapBaseLoop.simps) (simp only: assms if_False)

lemma swapBaseLoop_step:
  assumes "0 < r" "i < length ps"
  shows "swapBaseLoop ps i r t p =
    (let n1 = (if p < sqrt (lowerPriceBound (ps ! i)) then sqrt (lowerPriceBound (ps ! i)) else p);
         eff = min (n1 + r / liquidity (ps ! i)) (sqrt (upperPriceBound (ps ! i)))
     in if eff < sqrt (upperPriceBound (ps ! i))
        then (r - liquidity (ps ! i) * (eff - n1), t + liquidity (ps ! i) * (1 / n1 - 1 / eff), eff)
        else swapBaseLoop ps (Suc i) (r - liquidity (ps ! i) * (eff - n1))
               (t + liquidity (ps ! i) * (1 / n1 - 1 / eff)) eff)"
  by (subst swapBaseLoop.simps) (simp only: assms simp_thms if_True Let_def)

lemma swapPreLoop_stop:
  assumes "\<not> (0 < r \<and> i < length ps)"
  shows "swapPreLoop ps i r t p = (r, t, p)"
  by (subst swapPreLoop.simps) (simp only: assms if_False)

lemma swapPreLoop_step:
  assumes "0 < r" "i < length ps"
  shows "swapPreLoop ps i r t p =
    (let n1 = (if p > sqrt (upperPriceBound (ps ! i)) then sqrt (upperPriceBound (ps ! i)) else p);
         divisor = r / liquidity (ps ! i) + 1 / n1;
         eff = max (if divisor > 0 then 1 / divisor else 0) (sqrt (lowerPriceBound (ps ! i)))
     in if eff > sqrt (lowerPriceBound (ps ! i))
        then (r - liquidity (ps ! i) * (1 / n1 - 1 / eff), t + liquidity (ps ! i) * (n1 - eff), eff)
        else swapPreLoop ps (Suc i) (r - liquidity (ps ! i) * (1 / n1 - 1 / eff))
               (t + liquidity (ps ! i) * (n1 - eff)) eff)"
  by (subst swapPreLoop.simps) (simp only: assms simp_thms if_True Let_def)

lemma swapBaseLoop_price_mono:
  assumes "\<forall>j. i \<le> j \<and> j < length ps \<longrightarrow> wfPosition (ps ! j)"
    and "\<forall>j. i \<le> j \<and> Suc j < length ps \<longrightarrow>
           upperPriceBound (ps ! j) \<le> upperPriceBound (ps ! Suc j)"
    and "i < length ps \<longrightarrow> p \<le> sqrt (upperPriceBound (ps ! i))"
  shows "p \<le> snd (snd (swapBaseLoop ps i r t p))"
  using assms
proof (induction "length ps - i" arbitrary: i r t p)
  case 0
  then show ?case by (simp add: swapBaseLoop_stop)
next
  case (Suc n)
  show ?case
  proof (cases "0 < r \<and> i < length ps")
    case False
    then show ?thesis by (simp add: swapBaseLoop_stop)
  next
    case True
    then have r: "0 < r" and i: "i < length ps" by simp_all
    define lo where "lo = sqrt (lowerPriceBound (ps ! i))"
    define up where "up = sqrt (upperPriceBound (ps ! i))"
    define L where "L = liquidity (ps ! i)"
    define n1 where "n1 = (if p < lo then lo else p)"
    define eff where "eff = min (n1 + r / L) up"
    have step: "swapBaseLoop ps i r t p =
        (if eff < up then (r - L * (eff - n1), t + L * (1 / n1 - 1 / eff), eff)
         else swapBaseLoop ps (Suc i) (r - L * (eff - n1)) (t + L * (1 / n1 - 1 / eff)) eff)"
      unfolding eff_def n1_def L_def up_def lo_def
      by (simp only: swapBaseLoop_step [OF r i] Let_def)
    have wf: "wfPosition (ps ! i)" using Suc.prems(1) i by simp
    then have lo_up: "lo < up" and L: "0 < L"
      by (simp_all add: wfPosition_def lo_def up_def L_def)
    have p_up: "p \<le> up" using Suc.prems(3) i by (simp add: up_def)
    have p_n1: "p \<le> n1" by (simp add: n1_def)
    have n1_up: "n1 \<le> up" using p_up lo_up by (simp add: n1_def)
    have "0 < r / L" using r L by simp
    then have n1_eff: "n1 \<le> eff" using n1_up by (simp add: eff_def)
    have p_eff: "p \<le> eff" using p_n1 n1_eff by linarith
    show ?thesis
    proof (cases "eff < up")
      case True
      then show ?thesis
        using p_eff by (simp add: step)
    next
      case False
      then have e: "eff = up" by (simp add: eff_def)
      have n: "n = length ps - Suc i" using Suc.hyps(2) by simp
      have a1: "\<forall>j. Suc i \<le> j \<and> j < length ps \<longrightarrow> wfPosition (ps ! j)"
        using Suc.prems(1) by simp
      have a2: "\<forall>j. Suc i \<le> j \<and> Suc j < length ps \<longrightarrow>
           upperPriceBound (ps ! j) \<le> upperPriceBound (ps ! Suc j)"
        using Suc.prems(2) by simp
      have a3: "Suc i < length ps \<longrightarrow> eff \<le> sqrt (upperPriceBound (ps ! Suc i))"
        using Suc.prems(2) e by (simp add: up_def)
      have "eff \<le> snd (snd (swapBaseLoop ps (Suc i) (r - L * (eff - n1))
               (t + L * (1 / n1 - 1 / eff)) eff))"
        using Suc.hyps(1) [OF n a1 a2 a3] .
      then show ?thesis
        using False p_eff by (simp add: step)
    qed
  qed
qed

lemma swapPreLoop_price_mono:
  assumes "\<forall>j. i \<le> j \<and> j < length ps \<longrightarrow> wfPosition (ps ! j)"
    and "\<forall>j. i \<le> j \<and> Suc j < length ps \<longrightarrow>
           lowerPriceBound (ps ! Suc j) \<le> lowerPriceBound (ps ! j)"
    and "i < length ps \<longrightarrow> sqrt (lowerPriceBound (ps ! i)) \<le> p"
  shows "snd (snd (swapPreLoop ps i r t p)) \<le> p"
  using assms
proof (induction "length ps - i" arbitrary: i r t p)
  case 0
  then show ?case by (simp add: swapPreLoop_stop)
next
  case (Suc n)
  show ?case
  proof (cases "0 < r \<and> i < length ps")
    case False
    then show ?thesis by (simp add: swapPreLoop_stop)
  next
    case True
    then have r: "0 < r" and i: "i < length ps" by simp_all
    define lo where "lo = sqrt (lowerPriceBound (ps ! i))"
    define up where "up = sqrt (upperPriceBound (ps ! i))"
    define L where "L = liquidity (ps ! i)"
    define n1 where "n1 = (if p > up then up else p)"
    define divisor where "divisor = r / L + 1 / n1"
    define eff where "eff = max (if divisor > 0 then 1 / divisor else 0) lo"
    have step: "swapPreLoop ps i r t p =
        (if eff > lo then (r - L * (1 / n1 - 1 / eff), t + L * (n1 - eff), eff)
         else swapPreLoop ps (Suc i) (r - L * (1 / n1 - 1 / eff)) (t + L * (n1 - eff)) eff)"
      unfolding eff_def divisor_def n1_def L_def up_def lo_def
      by (simp only: swapPreLoop_step [OF r i] Let_def)
    have wf: "wfPosition (ps ! i)" using Suc.prems(1) i by simp
    then have lo_pos: "0 < lo" and lo_up: "lo < up" and L: "0 < L"
      by (simp_all add: wfPosition_def lo_def up_def L_def)
    have lo_p: "lo \<le> p" using Suc.prems(3) i by (simp add: lo_def)
    have n1_p: "n1 \<le> p" by (simp add: n1_def)
    have lo_n1: "lo \<le> n1" using lo_p lo_up by (simp add: n1_def)
    then have n1_pos: "0 < n1" using lo_pos by linarith
    have "0 < r / L" using r L by simp
    then have d: "1 / n1 < divisor" by (simp add: divisor_def)
    have "0 < 1 / n1" using n1_pos by simp
    then have dpos: "0 < divisor" using d by linarith
    have "1 / divisor < n1"
      using d n1_pos dpos by (simp add: field_simps)
    then have eff_n1: "eff \<le> n1" using lo_n1 dpos by (simp add: eff_def)
    have eff_p: "eff \<le> p" using eff_n1 n1_p by linarith
    show ?thesis
    proof (cases "eff > lo")
      case True
      then show ?thesis
        using eff_p by (simp add: step)
    next
      case False
      then have e: "eff = lo" by (simp add: eff_def)
      have n: "n = length ps - Suc i" using Suc.hyps(2) by simp
      have a1: "\<forall>j. Suc i \<le> j \<and> j < length ps \<longrightarrow> wfPosition (ps ! j)"
        using Suc.prems(1) by simp
      have a2: "\<forall>j. Suc i \<le> j \<and> Suc j < length ps \<longrightarrow>
           lowerPriceBound (ps ! Suc j) \<le> lowerPriceBound (ps ! j)"
        using Suc.prems(2) by simp
      have a3: "Suc i < length ps \<longrightarrow> sqrt (lowerPriceBound (ps ! Suc i)) \<le> eff"
        using Suc.prems(2) e by (simp add: lo_def)
      have "snd (snd (swapPreLoop ps (Suc i) (r - L * (1 / n1 - 1 / eff))
               (t + L * (n1 - eff)) eff)) \<le> eff"
        using Suc.hyps(1) [OF n a1 a2 a3] .
      then show ?thesis
        using False eff_p by (simp add: step)
    qed
  qed
qed

lemma findIndex_Some:
  "findIndex P xs = Some i \<Longrightarrow> i < length xs \<and> P (xs ! i)"
proof (induction xs arbitrary: i)
  case Nil
  then show ?case by simp
next
  case (Cons x xs)
  then show ?case
    by (cases "P x") (auto split: option.splits)
qed

lemma baseRoute_Some:
  assumes "baseRoute s amt = Some (r, t, p)"
  obtains i where
    "i < length (sort_key lowerPriceBound (map_values (lpPositions s)))"
    "(lowerPriceBound (sort_key lowerPriceBound (map_values (lpPositions s)) ! i) \<le> getCurrentPrice s
       \<and> getCurrentPrice s \<le> upperPriceBound (sort_key lowerPriceBound (map_values (lpPositions s)) ! i))
     \<or> getCurrentPrice s < lowerPriceBound (sort_key lowerPriceBound (map_values (lpPositions s)) ! i)"
    "swapBaseLoop (sort_key lowerPriceBound (map_values (lpPositions s))) i
       (amt - amt * feePercentage) 0 (sqrt (getCurrentPrice s)) = (r, t, p)"
proof -
  let ?ps = "sort_key lowerPriceBound (map_values (lpPositions s))"
  let ?P1 = "\<lambda>pos. lowerPriceBound pos \<le> getCurrentPrice s \<and> upperPriceBound pos \<ge> getCurrentPrice s"
  let ?P2 = "\<lambda>pos. lowerPriceBound pos > getCurrentPrice s"
  obtain i where i: "findIndex ?P1 ?ps = Some i \<or> findIndex ?P2 ?ps = Some i"
    and l: "swapBaseLoop ?ps i (amt - amt * feePercentage) 0 (sqrt (getCurrentPrice s)) = (r, t, p)"
    using assms by (auto simp add: baseRoute_def Let_def split: option.splits)
  from i have "i < length ?ps \<and> (?P1 (?ps ! i) \<or> ?P2 (?ps ! i))"
    using findIndex_Some [of ?P1 ?ps i] findIndex_Some [of ?P2 ?ps i] by blast
  then show ?thesis using that l by blast
qed

lemma preRoute_Some:
  assumes "preRoute s amt = Some (r, t, p)"
  obtains i where
    "i < length (sort_key (\<lambda>pos. - upperPriceBound pos) (map_values (lpPositions s)))"
    "(lowerPriceBound (sort_key (\<lambda>pos. - upperPriceBound pos) (map_values (lpPositions s)) ! i) \<le> getCurrentPrice s
       \<and> getCurrentPrice s \<le> upperPriceBound (sort_key (\<lambda>pos. - upperPriceBound pos) (map_values (lpPositions s)) ! i))
     \<or> upperPriceBound (sort_key (\<lambda>pos. - upperPriceBound pos) (map_values (lpPositions s)) ! i) < getCurrentPrice s"
    "swapPreLoop (sort_key (\<lambda>pos. - upperPriceBound pos) (map_values (lpPositions s))) i
       amt 0 (sqrt (getCurrentPrice s)) = (r, t, p)"
proof -
  let ?ps = "sort_key (\<lambda>pos. - upperPriceBound pos) (map_values (lpPositions s))"
  let ?P1 = "\<lambda>pos. lowerPriceBound pos \<le> getCurrentPrice s \<and> upperPriceBound pos \<ge> getCurrentPrice s"
  let ?P2 = "\<lambda>pos. upperPriceBound pos < getCurrentPrice s"
  obtain i where i: "findIndex ?P1 ?ps = Some i \<or> findIndex ?P2 ?ps = Some i"
    and l: "swapPreLoop ?ps i amt 0 (sqrt (getCurrentPrice s)) = (r, t, p)"
    using assms by (auto simp add: preRoute_def Let_def split: option.splits)
  from i have "i < length ?ps \<and> (?P1 (?ps ! i) \<or> ?P2 (?ps ! i))"
    using findIndex_Some [of ?P1 ?ps i] findIndex_Some [of ?P2 ?ps i] by blast
  then show ?thesis using that l by blast
qed

lemma swapBase_success:
  assumes "swapBaseForPreToken s trader amt = (Inr out, s')"
  obtains r p where "baseRoute s amt = Some (r, out, p)" "currentSqrtPrice s' = p"
    "0 < amt" "amt \<le> balanceOf (baseToken s) trader" "\<not> isSettlementPhase s"
proof -
  have "\<not> (isSettlementPhase s \<or> amt \<le> 0 \<or> balanceOf (baseToken s) trader < amt)"
    using swapBase_early(2) [of s amt trader] assms by auto
  then have a: "\<not> isSettlementPhase s" "0 < amt" "amt \<le> balanceOf (baseToken s) trader"
    by auto
  note u = swapBaseForPreToken_unfold [OF a]
  obtain r t p where rt: "baseRoute s amt = Some (r, t, p)"
    using u assms by (cases "baseRoute s amt") auto
  then have "t = out" "currentSqrtPrice s' = p"
    using u assms by auto
  then show ?thesis using that rt a by blast
qed

lemma swapPre_success:
  assumes "swapPreTokenForBase s trader amt = (Inr out, s')"
  obtains r t p where "preRoute s amt = Some (r, t, p)" "currentSqrtPrice s' = p"
    "out = t - t * feePercentage"
    "0 < amt" "amt \<le> balanceOf (preToken s) trader" "\<not> isSettlementPhase s"
proof -
  have "\<not> (isSettlementPhase s \<or> amt \<le> 0 \<or> balanceOf (preToken s) trader < amt)"
    using swapPre_early(2) [of s amt trader] assms by auto
  then have a: "\<not> isSettlementPhase s" "0 < amt" "amt \<le> balanceOf (preToken s) trader"
    by auto
  note u = swapPreTokenForBase_unfold [OF a]
  obtain r t p where rt: "preRoute s amt = Some (r, t, p)"
    using u assms by (cases "preRoute s amt") auto
  then have "out = t - t * feePercentage" "currentSqrtPrice s' = p"
    using u assms by auto
  then show ?thesis using that rt a by blast
qed

lemma swapBase_price_mono:
  assumes wf: "wfPositions s" and ord: "rangesOrdered s"
    and ok: "swapBaseForPreToken s trader amt = (Inr out, s')"
  shows "currentSqrtPrice s \<le> currentSqrtPrice s'"
proof -
  let ?ps = "sort_key lowerPriceBound (map_values (lpPositions s))"
  obtain r p where rt: "baseRoute s amt = Some (r, out, p)" and p: "currentSqrtPrice s' = p"
    using ok by (rule swapBase_success)
  obtain i where i: "i < length ?ps"
    and start: "(lowerPriceBound (?ps ! i) \<le> getCurrentPrice s
                  \<and> getCurrentPrice s \<le> upperPriceBound (?ps ! i))
                \<or> getCurrentPrice s < lowerPriceBound (?ps ! i)"
    and l: "swapBaseLoop ?ps i (amt - amt * feePercentage) 0 (sqrt (getCurrentPrice s)) = (r, out, p)"
    using rt by (rule baseRoute_Some)
  have all: "\<forall>j. j < length ?ps \<longrightarrow> wfPosition (?ps ! j)"
  proof (intro allI impI)
    fix j
    assume "j < length ?ps"
    then have "?ps ! j \<in> set ?ps" by (rule nth_mem)
    then have "?ps ! j \<in> set (map_values (lpPositions s))" by simp
    then show "wfPosition (?ps ! j)"
      using wf by (simp add: wfPositions_def list_all_iff)
  qed
  then have a1: "\<forall>j. i \<le> j \<and> j < length ?ps \<longrightarrow> wfPosition (?ps ! j)" by simp
  have "sorted (map upperPriceBound ?ps)"
    using ord by (simp add: rangesOrdered_def)
  then have a2: "\<forall>j. i \<le> j \<and> Suc j < length ?ps \<longrightarrow>
      upperPriceBound (?ps ! j) \<le> upperPriceBound (?ps ! Suc j)"
    by (auto simp add: sorted_iff_nth_Suc)
  have "lowerPriceBound (?ps ! i) < upperPriceBound (?ps ! i)"
    using all i by (simp add: wfPosition_def)
  then have "getCurrentPrice s \<le> upperPriceBound (?ps ! i)"
    using start by linarith
  then have a3: "i < length ?ps \<longrightarrow> sqrt (getCurrentPrice s) \<le> sqrt (upperPriceBound (?ps ! i))"
    by simp
  have "sqrt (getCurrentPrice s) \<le> p"
    using swapBaseLoop_price_mono [OF a1 a2 a3, of "amt - amt * feePercentage" 0] l by simp
  moreover have "currentSqrtPrice s \<le> sqrt (getCurrentPrice s)"
    by (simp add: getCurrentPrice_def)
  ultimately show ?thesis using p by simp
qed

lemma swapPre_price_mono:
  assumes wf: "wfPositions s" and ord: "rangesOrdered s" and nn: "0 \<le> currentSqrtPrice s"
    and ok: "swapPreTokenForBase s trader amt = (Inr out, s')"
  shows "currentSqrtPrice s' \<le> currentSqrtPrice s"
proof -
  let ?ps = "sort_key (\<lambda>pos. - upperPriceBound pos) (map_values (lpPositions s))"
  obtain r t p where rt: "preRoute s amt = Some (r, t, p)" and p: "currentSqrtPrice s' = p"
    using ok by (rule swapPre_success)
  obtain i where i: "i < length ?ps"
    and start: "(lowerPriceBound (?ps ! i) \<le> getCurrentPrice s
                  \<and> getCurrentPrice s \<le> upperPriceBound (?ps ! i))
                \<or> upperPriceBound (?ps ! i) < getCurrentPrice s"
    and l: "swapPreLoop ?ps i amt 0 (sqrt (getCurrentPrice s)) = (r, t, p)"
    using rt by (rule preRoute_Some)
  have all: "\<forall>j. j < length ?ps \<longrightarrow> wfPosition (?ps ! j)"
  proof (intro allI impI)
    fix j
    assume "j < length ?ps"
    then have "?ps ! j \<in> set ?ps" by (rule nth_mem)
    then have "?ps ! j \<in> set (map_values (lpPositions s))" by simp
    then show "wfPosition (?ps ! j)"
      using wf by (simp add: wfPositions_def list_all_iff)
  qed
  then have a1: "\<forall>j. i \<le> j \<and> j < length ?ps \<longrightarrow> wfPosition (?ps ! j)" by simp
  have "sorted (map (\<lambda>pos. - lowerPriceBound pos) ?ps)"
    using ord by (simp add: rangesOrdered_def)
  then have a2: "\<forall>j. i \<le> j \<and> Suc j < length ?ps \<longrightarrow>
      lowerPriceBound (?ps ! Suc j) \<le> lowerPriceBound (?ps ! j)"
    by (auto simp add: sorted_iff_nth_Suc)
  have "lowerPriceBound (?ps ! i) < upperPriceBound (?ps ! i)"
    using all i by (simp add: wfPosition_def)
  then have "lowerPriceBound (?ps ! i) \<le> getCurrentPrice s"
    using start by linarith
  then have a3: "i < length ?ps \<longrightarrow> sqrt (lowerPriceBound (?ps ! i)) \<le> sqrt (getCurrentPrice s)"
    by simp
  have "p \<le> sqrt (getCurrentPrice s)"
    using swapPreLoop_price_mono [OF a1 a2 a3, of amt 0] l by simp
  moreover have "sqrt (getCurrentPrice s) = currentSqrtPrice s"
    using nn by (simp add: getCurrentPrice_def)
  ultimately show ?thesis using p by simp
qed

lemma swapBaseLoop_nonneg:
  assumes "\<forall>j. i \<le> j \<and> j < length ps \<longrightarrow> wfPosition (ps ! j)" "0 \<le> p"
  shows "0 \<le> snd (snd (swapBaseLoop ps i r t p))"
  using assms
proof (induction "length ps - i" arbitrary: i r t p)
  case 0
  then show ?case by (simp add: swapBaseLoop_stop)
next
  case (Suc n)
  show ?case
  proof (cases "0 < r \<and> i < length ps")
    case False
    then show ?thesis using Suc.prems(2) by (simp add: swapBaseLoop_stop)
  next
    case True
    then have r: "0 < r" and i: "i < length ps" by simp_all
    define lo where "lo = sqrt (lowerPriceBound (ps ! i))"
    define up where "up = sqrt (upperPriceBound (ps ! i))"
    define L where "L = liquidity (ps ! i)"
    define n1 where "n1 = (if p < lo then lo else p)"
    define eff where "eff = min (n1 + r / L) up"
    have step: "swapBaseLoop ps i r t p =
        (if eff < up then (r - L * (eff - n1), t + L * (1 / n1 - 1 / eff), eff)
         else swapBaseLoop ps (Suc i) (r - L * (eff - n1)) (t + L * (1 / n1 - 1 / eff)) eff)"
      unfolding eff_def n1_def L_def up_def lo_def
      by (simp only: swapBaseLoop_step [OF r i] Let_def)
    have wf: "wfPosition (ps ! i)" using Suc.prems(1) i by simp
    then have lo_pos: "0 < lo" and lo_up: "lo < up" and L: "0 < L"
      by (simp_all add: wfPosition_def lo_def up_def L_def)
    have "0 \<le> n1" using Suc.prems(2) by (simp add: n1_def)
    moreover have "0 < r / L" using r L by simp
    ultimately have e: "0 \<le> eff" using lo_pos lo_up by (simp add: eff_def)
    have n: "n = length ps - Suc i" using Suc.hyps(2) by simp
    have a1: "\<forall>j. Suc i \<le> j \<and> j < length ps \<longrightarrow> wfPosition (ps ! j)"
      using Suc.prems(1) by simp
    show ?thesis
      using e Suc.hyps(1) [OF n a1 e] by (simp add: step)
  qed
qed

lemma swapPreLoop_nonneg:
  assumes "\<forall>j. i \<le> j \<and> j < length ps \<longrightarrow> wfPosition (ps ! j)" "0 \<le> p"
  shows "0 \<le> snd (snd (swapPreLoop ps i r t p))"
  using assms
proof (induction "length ps - i" arbitrary: i r t p)
  case 0
  then show ?case by (simp add: swapPreLoop_stop)
next
  case (Suc n)
  show ?case
  proof (cases "0 < r \<and> i < length ps")
    case False
    then show ?thesis using Suc.prems(2) by (simp add: swapPreLoop_stop)
  next
    case True
    then have r: "0 < r" and i: "i < length ps" by simp_all
    define lo where "lo = sqrt (lowerPriceBound (ps ! i))"
    define up where "up = sqrt (upperPriceBound (ps ! i))"
    define L where "L = liquidity (ps ! i)"
    define n1 where "n1 = (if p > up then up else p)"
    define divisor where "divisor = r / L + 1 / n1"
    define eff where "eff = max (if divisor > 0 then 1 / divisor else 0) lo"
    have step: "swapPreLoop ps i r t p =
        (if eff > lo then (r - L * (1 / n1 - 1 / eff), t + L * (n1 - eff), eff)
         else swapPreLoop ps (Suc i) (r - L * (1 / n1 - 1 / eff)) (t + L * (n1 - eff)) eff)"
      unfolding eff_def divisor_def n1_def L_def up_def lo_def
      by (simp only: swapPreLoop_step [OF r i] Let_def)
    have wf: "wfPosition (ps ! i)" using Suc.prems(1) i by simp
    then have lo_pos: "0 < lo"
      by (simp add: wfPosition_def lo_def)
    then have e: "0 \<le> eff" by (simp add: eff_def max_def)
    have n: "n = length ps - Suc i" using Suc.hyps(2) by simp
    have a1: "\<forall>j. Suc i \<le> j \<and> j < length ps \<longrightarrow> wfPosition (ps ! j)"
      using Suc.prems(1) by simp
    show ?thesis
      using e Suc.hyps(1) [OF n a1 e] by (simp add: step)
  qed
qed

lemma wfPosition_sorted_nth:
  assumes "wfPositions s" "set ps = set (map_values (lpPositions s))"
  shows "\<forall>j. i \<le> j \<and> j < length ps \<longrightarrow> wfPosition (ps ! j)"
  using assms by (auto simp add: wfPositions_def list_all_iff)

lemma set_map_set:
  "(a, y) \<in> set (map_set m k v) \<Longrightarrow> y = v \<or> (a, y) \<in> set m"
  by (induction m) (auto split: if_splits)

lemma set_map_values_map_set:
  "set (map_values (map_set m k v)) \<subseteq> insert v (set (map_values m))"
  using set_map_set [of _ _ m k v] by (fastforce simp add: map_values_def)

lemma wfPosition_addedPosition:
  assumes "0 < x" "0 < pa" "pa < pb"
  shows "wfPosition (addedPosition s ow x pa pb)"
  using assms sqrt_range_pos(3) [OF assms(2,3)]
  by (simp add: wfPosition_def addedPosition_def)

lemma addLiquidity_wfPool:
  assumes "wfPool s"
  shows "wfPool (snd (addLiquidity s ow x pa pb))"
proof (cases rule: addLiquidity_cases [of s x ow pa pb])
  case ok
  have w: "wfPosition (addedPosition s ow x pa pb)"
    using ok by (simp add: wfPosition_addedPosition)
  have "list_all wfPosition (map_values (map_set (lpPositions s)
          (''LP-'' @ string_of_nat (nextPositionId s)) (addedPosition s ow x pa pb)))"
    using assms w
      set_map_values_map_set [of "lpPositions s" "''LP-'' @ string_of_nat (nextPositionId s)"
        "addedPosition s ow x pa pb"]
    by (auto simp add: wfPool_def wfPositions_def list_all_iff)
  then show ?thesis
    using assms ok by (simp add: addLiquidity_success [OF ok] wfPool_def wfPositions_def)
next
  case (failed e)
  then show ?thesis using assms by simp
qed

lemma swapBase_wfPool:
  assumes "wfPool s"
  shows "wfPool (snd (swapBaseForPreToken s trader amt))"
proof (cases "isSettlementPhase s \<or> amt \<le> 0 \<or> balanceOf (baseToken s) trader < amt")
  case True
  then show ?thesis using assms by (simp add: swapBase_early(1))
next
  case False
  then have a: "\<not> isSettlementPhase s" "0 < amt" "amt \<le> balanceOf (baseToken s) trader"
    by auto
  note u = swapBaseForPreToken_unfold [OF a]
  show ?thesis
  proof (cases "baseRoute s amt")
    case None
    then show ?thesis using assms by (simp add: u wfPool_def wfPositions_def)
  next
    case (Some v)
    obtain r t p where v: "v = (r, t, p)" by (cases v)
    let ?ps = "sort_key lowerPriceBound (map_values (lpPositions s))"
    obtain i where l: "swapBaseLoop ?ps i (amt - amt * feePercentage) 0 (sqrt (getCurrentPrice s)) = (r, t, p)"
      using Some v baseRoute_Some [of s amt r t p] by blast
    have w: "\<forall>j. i \<le> j \<and> j < length ?ps \<longrightarrow> wfPosition (?ps ! j)"
      using assms by (intro wfPosition_sorted_nth [of s]) (simp_all add: wfPool_def)
    have "0 \<le> sqrt (getCurrentPrice s)" by (simp add: getCurrentPrice_def)
    then have "0 \<le> p"
      using swapBaseLoop_nonneg [OF w, of "sqrt (getCurrentPrice s)" "amt - amt * feePercentage" 0] l
      by simp
    then show ?thesis
      using assms Some v by (simp add: u wfPool_def wfPositions_def)
  qed
qed

lemma swapPre_wfPool:
  assumes "wfPool s"
  shows "wfPool (snd (swapPreTokenForBase s trader amt))"
proof (cases "isSettlementPhase s \<or> amt \<le> 0 \<or> balanceOf (preToken s) trader < amt")
  case True
  then show ?thesis using assms by (simp add: swapPre_early(1))
next
  case False
  then have a: "\<not> isSettlementPhase s" "0 < amt" "amt \<le> balanceOf (preToken s) trader"
    by auto
  note u = swapPreTokenForBase_unfold [OF a]
  show ?thesis
  proof (cases "preRoute s amt")
    case None
    then show ?thesis using assms by (simp add: u wfPool_def wfPositions_def)
  next
    case (Some v)
    obtain r t p where v: "v = (r, t, p)" by (cases v)
    let ?ps = "sort_key (\<lambda>pos. - upperPriceBound pos) (map_values (lpPositions s))"
    obtain i where l: "swapPreLoop ?ps i amt 0 (sqrt (getCurrentPrice s)) = (r, t, p)"
      using Some v preRoute_Some [of s amt r t p] by blast
    have w: "\<forall>j. i \<le> j \<and> j < length ?ps \<longrightarrow> wfPosition (?ps ! j)"
      using assms by (intro wfPosition_sorted_nth [of s]) (simp_all add: wfPool_def)
    have "0 \<le> sqrt (getCurrentPrice s)" by (simp add: getCurrentPrice_def)
    then have "0 \<le> p"
      using swapPreLoop_nonneg [OF w, of "sqrt (getCurrentPrice s)" amt 0] l
      by simp
    then show ?thesis
      using assms Some v by (simp add: u wfPool_def wfPositions_def)
  qed
qed

lemma exec_call_wfPool:
  assumes "wfPool s"
  shows "wfPool (snd (exec_call s c))"
proof (cases c)
  case (AddLiquidity ow x pa pb)
  then show ?thesis
    using addLiquidity_wfPool [OF assms, of ow x pa pb] by (simp add: case_prod_unfold)
next
  case (SwapBaseForPreToken trader amt)
  then show ?thesis
    using swapBase_wfPool [OF assms, of trader amt] by (simp add: case_prod_unfold)
next
  case (SwapPreTokenForBase trader amt)
  then show ?thesis
    using swapPre_wfPool [OF assms, of trader amt] by (simp add: case_prod_unfold)
next
  case (EnterSettlementPhase t)
  then show ?thesis
    using assms by (simp add: wfPool_def wfPositions_def enterSettlementPhase_def)
qed

lemma reachableFrom_wfPool:
  "reachableFrom ip s \<Longrightarrow> wfPool s"
proof (induction rule: reachableFrom.induct)
  case (constructed initialPrice b p)
  then show ?case
    by (cases initialPrice)
       (simp_all add: wfPool_def wfPositions_def newLiquidityPool_def map_values_def)
next
  case (called initialPrice s c)
  then show ?case by (simp add: exec_call_wfPool)
next
  case (ledger_changed initialPrice s b p)
  then show ?case by (simp add: wfPool_def wfPositions_def)
qed

lemma ordered_ranges_price_direction:
  assumes "reachableFrom ip s" "rangesOrdered s"
  shows "swapBaseForPreToken s trader amt = (Inr out, s') \<longrightarrow>
           currentSqrtPrice s \<le> currentSqrtPrice s'"
    and "swapPreTokenForBase s trader amt = (Inr out, s') \<longrightarrow>
           currentSqrtPrice s' \<le> currentSqrtPrice s"
  using reachableFrom_wfPool [OF assms(1)] assms(2) swapBase_price_mono swapPre_price_mono
  by (auto simp add: wfPool_def)

section \<open>The pool account's base balance and the base reserve\<close>











end
